theory Spec2Isabelle
  imports Complex_Main "HOL-Library.AList"
begin

section \<open>Hover-editor positioning: the data model\<close>

text \<open>
  The embedding follows \<^verbatim>\<open>terminal-hover-editor-positioning.ts\<close>.

  Numbers are JavaScript numbers in the source. They are modelled as \<^typ>\<open>real\<close>:
  exact arithmetic, no rounding, no NaN and no infinities. HOL's \<open>x / 0\<close> is \<open>0\<close>
  where JavaScript gives an infinity or NaN, so the statements about converted values
  assume a zoom that is not zero. The collaborators are total: every node has a graph
  view, every graph view a container, and no call of theirs throws.

  Objects with identity (graph views, nodes, DOM elements, timers, frame callbacks and
  the closures of one \<^verbatim>\<open>pinHoverEditorToNode\<close> call) are named by natural numbers.
\<close>

type_synonym cy_ref = nat
type_synonym node_ref = nat
type_synonym el_ref = nat
type_synonym scope_ref = nat
type_synonym timer_id = nat

text \<open>The fields of a \<^verbatim>\<open>DOMRect\<close> that the source reads.\<close>

record DOMRect =
  r_left :: real
  r_top :: real
  r_width :: real
  r_height :: real

text \<open>The fields of \<^verbatim>\<open>node.renderedBoundingBox()\<close> that the source reads.\<close>

record BoundingBox =
  x1 :: real
  y1 :: real

record HoverEditorState =
  offsetX :: real
  offsetY :: real
  width :: real
  height :: real

text \<open>
  \<^verbatim>\<open>interface TrackedEditor\<close>. The state object, the three observers and the two
  handlers are created by one call of \<^verbatim>\<open>pinHoverEditorToNode\<close>; each field holds
  the reference of that call's scope, where the object lives.
\<close>

record TrackedEditor =
  node :: node_ref
  popoverEl :: el_ref
  state :: scope_ref
  resizeObserver :: scope_ref
  mutationObserver :: scope_ref
  containerResizeObserver :: scope_ref
  windowResizeHandler :: scope_ref
  dragPollInterval :: timer_id
  onGraphChange :: scope_ref

text \<open>
  The local variables of one call of \<^verbatim>\<open>pinHoverEditorToNode\<close> that its closures
  capture. \<open>l_dragPollInterval\<close> is the local \<^verbatim>\<open>let dragPollInterval: number\<close>:
  the source declares it and never assigns it, so it holds \<^verbatim>\<open>undefined\<close>
  (\<open>None\<close>). The local \<^verbatim>\<open>updatePending\<close> and the function
  \<^verbatim>\<open>updatePosition\<close> are never used and are left out.
\<close>

record pin_scope =
  l_this :: nat
  l_terminalId :: string
  l_cy :: cy_ref
  l_node :: node_ref
  l_popoverEl :: el_ref
  l_dragPollInterval :: "timer_id option"
  l_cachedContainerRect :: DOMRect
  l_lastRectUpdate :: int
  l_state :: HoverEditorState

text \<open>
  The inline style of an element. A length is kept as the number that
  \<^verbatim>\<open>parseFloat\<close> reads back from the string the source writes
  (\<^verbatim>\<open>`${x}px`\<close>); \<open>None\<close> is a string that \<^verbatim>\<open>parseFloat\<close> maps to NaN
  (unset or not numeric).
\<close>

record style =
  st_position :: "string option"
  st_left :: "real option"
  st_top :: "real option"
  st_width :: "real option"
  st_height :: "real option"
  st_zIndex :: "string option"

datatype style_prop = Position | Left | Top | Width | Height | ZIndex

text \<open>The log of geometry reads and DOM writes, in the order the source performs them.\<close>

datatype event =
    ReadZoom cy_ref
  | ReadContainerRect cy_ref
  | ReadNodeBox node_ref
  | ReadPopoverRect el_ref
  | ReadOffsetSize el_ref
  | ReadStyle el_ref style_prop
  | WriteStyle el_ref style_prop

fun is_write :: "event \<Rightarrow> bool" where
  "is_write (WriteStyle e p) = True"
| "is_write _ = False"

definition is_read :: "event \<Rightarrow> bool" where
  "is_read ev = (\<not> is_write ev)"

text \<open>
  The whole process. \<open>instances\<close> is the static array of the class, each entry being that
  instance's \<^verbatim>\<open>trackingMap\<close> (a JavaScript \<^verbatim>\<open>Map\<close>: an association list in
  insertion order); an instance is named by its index in the array. \<open>scopes\<close> is the
  store of closure scopes. The next group is the host: the queue of frame callbacks, the
  running interval timers with the scope whose \<^verbatim>\<open>pollForDrag\<close> they call, the
  registered listeners and observers, and the inline styles. The last group is what the
  collaborators report when asked.
\<close>

record world =
  instances :: "(string \<times> TrackedEditor) list list"
  updatePending :: bool
  sharedRAFId :: "nat option"
  scopes :: "scope_ref \<Rightarrow> pin_scope"
  next_scope :: scope_ref
  raf_queue :: "nat list"
  next_raf :: nat
  intervals :: "(timer_id \<times> scope_ref) list"
  next_timer :: timer_id
  viewport_handlers :: "(cy_ref \<times> scope_ref) list"
  position_handlers :: "(node_ref \<times> scope_ref) list"
  resize_observing :: "(scope_ref \<times> el_ref) list"
  mutation_observing :: "scope_ref list"
  container_observing :: "(scope_ref \<times> cy_ref) list"
  window_resize_listeners :: "scope_ref list"
  styles :: "el_ref \<Rightarrow> style"
  trace :: "event list"
  cy_zoom :: "cy_ref \<Rightarrow> real"
  cy_container_rect :: "cy_ref \<Rightarrow> DOMRect"
  node_cy :: "node_ref \<Rightarrow> cy_ref"
  node_renderedBoundingBox :: "node_ref \<Rightarrow> BoundingBox"
  el_boundingClientRect :: "el_ref \<Rightarrow> DOMRect"
  el_offsetWidth :: "el_ref \<Rightarrow> real"
  el_offsetHeight :: "el_ref \<Rightarrow> real"
  body_contains :: "el_ref \<Rightarrow> bool"
  date_now :: int

section \<open>Unit conversion\<close>

definition screenToGraph :: "real \<Rightarrow> real \<Rightarrow> real" where
  "screenToGraph screenValue zoom = screenValue / zoom"

definition graphToScreen :: "real \<Rightarrow> real \<Rightarrow> real" where
  "graphToScreen graphValue zoom = graphValue * zoom"

section \<open>The host's primitives\<close>

definition log_event :: "event \<Rightarrow> world \<Rightarrow> world" where
  "log_event ev w = w\<lparr>trace := trace w @ [ev]\<rparr>"

text \<open>\<^verbatim>\<open>cy.on('viewport', h)\<close>, \<^verbatim>\<open>cy.off('viewport', h)\<close> and the same for a node.\<close>

definition cy_on_viewport :: "cy_ref \<Rightarrow> scope_ref \<Rightarrow> world \<Rightarrow> world" where
  "cy_on_viewport c h w = w\<lparr>viewport_handlers := viewport_handlers w @ [(c, h)]\<rparr>"

definition cy_off_viewport :: "cy_ref \<Rightarrow> scope_ref \<Rightarrow> world \<Rightarrow> world" where
  "cy_off_viewport c h w =
     w\<lparr>viewport_handlers := filter (\<lambda>p. p \<noteq> (c, h)) (viewport_handlers w)\<rparr>"

definition node_on_position :: "node_ref \<Rightarrow> scope_ref \<Rightarrow> world \<Rightarrow> world" where
  "node_on_position n h w = w\<lparr>position_handlers := position_handlers w @ [(n, h)]\<rparr>"

definition node_off_position :: "node_ref \<Rightarrow> scope_ref \<Rightarrow> world \<Rightarrow> world" where
  "node_off_position n h w =
     w\<lparr>position_handlers := filter (\<lambda>p. p \<noteq> (n, h)) (position_handlers w)\<rparr>"

definition resizeObserver_observe :: "scope_ref \<Rightarrow> el_ref \<Rightarrow> world \<Rightarrow> world" where
  "resizeObserver_observe ob e w = w\<lparr>resize_observing := resize_observing w @ [(ob, e)]\<rparr>"

definition resizeObserver_disconnect :: "scope_ref \<Rightarrow> world \<Rightarrow> world" where
  "resizeObserver_disconnect ob w =
     w\<lparr>resize_observing := filter (\<lambda>p. fst p \<noteq> ob) (resize_observing w)\<rparr>"

definition mutationObserver_observe :: "scope_ref \<Rightarrow> world \<Rightarrow> world" where
  "mutationObserver_observe ob w = w\<lparr>mutation_observing := mutation_observing w @ [ob]\<rparr>"

definition mutationObserver_disconnect :: "scope_ref \<Rightarrow> world \<Rightarrow> world" where
  "mutationObserver_disconnect ob w =
     w\<lparr>mutation_observing := filter (\<lambda>p. p \<noteq> ob) (mutation_observing w)\<rparr>"

definition containerResizeObserver_observe :: "scope_ref \<Rightarrow> cy_ref \<Rightarrow> world \<Rightarrow> world" where
  "containerResizeObserver_observe ob c w =
     w\<lparr>container_observing := container_observing w @ [(ob, c)]\<rparr>"

definition containerResizeObserver_disconnect :: "scope_ref \<Rightarrow> world \<Rightarrow> world" where
  "containerResizeObserver_disconnect ob w =
     w\<lparr>container_observing := filter (\<lambda>p. fst p \<noteq> ob) (container_observing w)\<rparr>"

definition window_addEventListener_resize :: "scope_ref \<Rightarrow> world \<Rightarrow> world" where
  "window_addEventListener_resize h w =
     w\<lparr>window_resize_listeners := window_resize_listeners w @ [h]\<rparr>"

definition window_removeEventListener_resize :: "scope_ref \<Rightarrow> world \<Rightarrow> world" where
  "window_removeEventListener_resize h w =
     w\<lparr>window_resize_listeners := filter (\<lambda>p. p \<noteq> h) (window_resize_listeners w)\<rparr>"

text \<open>
  \<^verbatim>\<open>window.setInterval\<close> hands out the next timer identifier;
  \<^verbatim>\<open>clearInterval\<close> of \<^verbatim>\<open>undefined\<close>, or of a number that names no running
  timer, does nothing.
\<close>

definition setInterval_pollForDrag :: "scope_ref \<Rightarrow> world \<Rightarrow> timer_id \<times> world" where
  "setInterval_pollForDrag r w =
     (next_timer w,
      w\<lparr>intervals := intervals w @ [(next_timer w, r)], next_timer := next_timer w + 1\<rparr>)"

definition clearInterval :: "timer_id option \<Rightarrow> world \<Rightarrow> world" where
  "clearInterval t w =
     (case t of
        None \<Rightarrow> w
      | Some i \<Rightarrow> w\<lparr>intervals := filter (\<lambda>p. fst p \<noteq> i) (intervals w)\<rparr>)"

text \<open>The tracking map of one instance: \<^verbatim>\<open>this.trackingMap\<close>.\<close>

definition trackingMap :: "world \<Rightarrow> nat \<Rightarrow> (string \<times> TrackedEditor) list" where
  "trackingMap w this = instances w ! this"

definition trackingMap_set :: "nat \<Rightarrow> string \<Rightarrow> TrackedEditor \<Rightarrow> world \<Rightarrow> world" where
  "trackingMap_set this k v w =
     w\<lparr>instances := (instances w)[this := AList.update k v (instances w ! this)]\<rparr>"

definition trackingMap_delete :: "nat \<Rightarrow> string \<Rightarrow> world \<Rightarrow> world" where
  "trackingMap_delete this k w =
     w\<lparr>instances := (instances w)[this := AList.delete k (instances w ! this)]\<rparr>"

section \<open>The batched positioner\<close>

text \<open>The constructor: \<^verbatim>\<open>instances.push(this)\<close> with an empty tracking map.\<close>

definition constructor :: "world \<Rightarrow> world" where
  "constructor w = w\<lparr>instances := instances w @ [[]]\<rparr>"

record update =
  u_popoverEl :: el_ref
  u_x :: real
  u_y :: real
  u_width :: real
  u_height :: real

text \<open>
  The editors of every instance, in the order of the two nested loops. The source pairs
  each editor with its instance and never reads that component.
\<close>

definition allEditors :: "world \<Rightarrow> TrackedEditor list" where
  "allEditors w = concat (map (map snd) (instances w))"

text \<open>The read phase: the body of \<^verbatim>\<open>allEditors.forEach\<close>, one editor after the other.\<close>

fun read_phase ::
  "real \<Rightarrow> DOMRect \<Rightarrow> TrackedEditor list \<Rightarrow> update list \<Rightarrow> world \<Rightarrow> update list \<times> world"
where
  "read_phase zoom containerRect [] updates w = (updates, w)"
| "read_phase zoom containerRect (editor # rest) updates w =
     (let nodeBoundingBox = node_renderedBoundingBox w (node editor);
          w1 = log_event (ReadNodeBox (node editor)) w;
          nodeViewportX = r_left containerRect + x1 nodeBoundingBox;
          nodeViewportY = r_top containerRect + y1 nodeBoundingBox;
          st = l_state (scopes w1 (state editor));
          screenOffsetX = graphToScreen (offsetX st) zoom;
          screenOffsetY = graphToScreen (offsetY st) zoom
      in read_phase zoom containerRect rest
           (updates @ [\<lparr>u_popoverEl = popoverEl editor,
                        u_x = nodeViewportX + screenOffsetX,
                        u_y = nodeViewportY + screenOffsetY,
                        u_width = graphToScreen (width st) zoom,
                        u_height = graphToScreen (height st) zoom\<rparr>]) w1)"

text \<open>The six style assignments of the write phase for one update.\<close>

definition apply_update :: "update \<Rightarrow> world \<Rightarrow> world" where
  "apply_update u w =
     (let e = u_popoverEl u;
          w1 = log_event (WriteStyle e Position)
                 (w\<lparr>styles := (styles w)(e := (styles w e)\<lparr>st_position := Some ''fixed''\<rparr>)\<rparr>);
          w2 = log_event (WriteStyle e Left)
                 (w1\<lparr>styles := (styles w1)(e := (styles w1 e)\<lparr>st_left := Some (u_x u)\<rparr>)\<rparr>);
          w3 = log_event (WriteStyle e Top)
                 (w2\<lparr>styles := (styles w2)(e := (styles w2 e)\<lparr>st_top := Some (u_y u)\<rparr>)\<rparr>);
          w4 = log_event (WriteStyle e Width)
                 (w3\<lparr>styles := (styles w3)(e := (styles w3 e)\<lparr>st_width := Some (u_width u)\<rparr>)\<rparr>);
          w5 = log_event (WriteStyle e Height)
                 (w4\<lparr>styles := (styles w4)(e := (styles w4 e)\<lparr>st_height := Some (u_height u)\<rparr>)\<rparr>)
      in log_event (WriteStyle e ZIndex)
           (w5\<lparr>styles := (styles w5)(e := (styles w5 e)\<lparr>st_zIndex := Some ''1000''\<rparr>)\<rparr>))"

fun write_phase :: "update list \<Rightarrow> world \<Rightarrow> world" where
  "write_phase [] w = w"
| "write_phase (u # us) w = write_phase us (apply_update u w)"

definition sharedUpdate :: "world \<Rightarrow> world" where
  "sharedUpdate w =
     (case allEditors w of
        [] \<Rightarrow> w\<lparr>updatePending := False\<rparr>
      | firstEditor # rest \<Rightarrow>
          (let cy = node_cy w (node firstEditor);
               zoom = cy_zoom w cy;
               w1 = log_event (ReadZoom cy) w;
               containerRect = cy_container_rect w1 cy;
               w2 = log_event (ReadContainerRect cy) w1;
               (updates, w3) = read_phase zoom containerRect (firstEditor # rest) [] w2;
               w4 = write_phase updates w3
           in w4\<lparr>updatePending := False\<rparr>))"

text \<open>
  \<^verbatim>\<open>requestAnimationFrame\<close> queues the callback, which is always a call of
  \<^verbatim>\<open>sharedUpdate\<close>, and returns its handle.
\<close>

definition scheduleSharedUpdate :: "world \<Rightarrow> world" where
  "scheduleSharedUpdate w =
     (if \<not> updatePending w then
        w\<lparr>updatePending := True,
          sharedRAFId := Some (next_raf w),
          raf_queue := raf_queue w @ [next_raf w],
          next_raf := next_raf w + 1\<rparr>
      else w)"

text \<open>
  A frame boundary: the host takes the callbacks queued so far and runs each of them once.
\<close>

definition animationFrame :: "world \<Rightarrow> world" where
  "animationFrame w = fold (\<lambda>cb. sharedUpdate) (raf_queue w) (w\<lparr>raf_queue := []\<rparr>)"

section \<open>Pinning a panel to a node\<close>

definition scope_map :: "scope_ref \<Rightarrow> (pin_scope \<Rightarrow> pin_scope) \<Rightarrow> world \<Rightarrow> world" where
  "scope_map r f w = w\<lparr>scopes := (scopes w)(r := f (scopes w r))\<rparr>"

text \<open>
  \<^verbatim>\<open>getContainerRect\<close> of the scope \<open>r\<close>: the cached rectangle, read again from the
  container when the cache is older than 300 ms.
\<close>

definition getContainerRect :: "scope_ref \<Rightarrow> world \<Rightarrow> DOMRect \<times> world" where
  "getContainerRect r w =
     (let now = date_now w
      in if now - l_lastRectUpdate (scopes w r) > 300 then
           (cy_container_rect w (l_cy (scopes w r)),
            log_event (ReadContainerRect (l_cy (scopes w r)))
              (scope_map r (\<lambda>sc. sc\<lparr>l_cachedContainerRect := cy_container_rect w (l_cy sc),
                                        l_lastRectUpdate := now\<rparr>) w))
         else (l_cachedContainerRect (scopes w r), w))"

text \<open>\<^verbatim>\<open>parseFloat(s) || 0\<close> on a style length: NaN and 0 both give 0.\<close>

definition parseFloat_or_0 :: "real option \<Rightarrow> real" where
  "parseFloat_or_0 s = (case s of None \<Rightarrow> 0 | Some v \<Rightarrow> v)"

text \<open>
  One tick of the detector for the scope \<open>r\<close>. The captured variables \<^verbatim>\<open>cy\<close>,
  \<^verbatim>\<open>node\<close>, \<^verbatim>\<open>popoverEl\<close> and the state object are read from the scope as it
  is when the tick starts: \<^verbatim>\<open>getContainerRect\<close> changes the two cache variables only.
\<close>

definition pollForDrag :: "scope_ref \<Rightarrow> world \<Rightarrow> world" where
  "pollForDrag r w =
     (let sc = scopes w r;
          zoom = cy_zoom w (l_cy sc);
          (containerRect, w1) = getContainerRect r (log_event (ReadZoom (l_cy sc)) w);
          nodeBoundingBox = node_renderedBoundingBox w (l_node sc);
          nodeViewportX = r_left containerRect + x1 nodeBoundingBox;
          nodeViewportY = r_top containerRect + y1 nodeBoundingBox;
          expectedX = nodeViewportX + graphToScreen (offsetX (l_state sc)) zoom;
          expectedY = nodeViewportY + graphToScreen (offsetY (l_state sc)) zoom;
          actualX = parseFloat_or_0 (st_left (styles w (l_popoverEl sc)));
          actualY = parseFloat_or_0 (st_top (styles w (l_popoverEl sc)));
          w2 = w1\<lparr>trace := trace w1 @ [ReadNodeBox (l_node sc),
                                          ReadStyle (l_popoverEl sc) Left,
                                          ReadStyle (l_popoverEl sc) Top]\<rparr>;
          threshold = 2;
          dx = actualX - expectedX;
          dy = actualY - expectedY
      in if \<bar>dx\<bar> > threshold \<or> \<bar>dy\<bar> > threshold then
           scope_map r (\<lambda>s. s\<lparr>l_state := (l_state s)
              \<lparr>offsetX := offsetX (l_state s) + screenToGraph dx zoom,
               offsetY := offsetY (l_state s) + screenToGraph dy zoom\<rparr>\<rparr>) w2
         else w2)"

text \<open>The callback of the size-change observer, given the entries the host delivers.\<close>

fun resizeObserver_callback :: "scope_ref \<Rightarrow> DOMRect list \<Rightarrow> world \<Rightarrow> world" where
  "resizeObserver_callback r [] w = w"
| "resizeObserver_callback r (contentRect # entries) w =
     resizeObserver_callback r entries
       (log_event (ReadZoom (l_cy (scopes w r)))
          (scope_map r (\<lambda>s. s\<lparr>l_state := (l_state s)
              \<lparr>width := screenToGraph (r_width contentRect) (cy_zoom w (l_cy s)),
               height := screenToGraph (r_height contentRect) (cy_zoom w (l_cy s))\<rparr>\<rparr>) w))"

text \<open>
  The closure \<^verbatim>\<open>cleanup\<close> of the scope \<open>r\<close>. It clears the interval named by the
  local variable \<^verbatim>\<open>dragPollInterval\<close> of the scope.
\<close>

definition cleanup_closure :: "scope_ref \<Rightarrow> world \<Rightarrow> world" where
  "cleanup_closure r w =
     (let sc = scopes w r;
          w1 = cy_off_viewport (l_cy sc) r w;
          w2 = node_off_position (l_node sc) r w1;
          w3 = resizeObserver_disconnect r w2;
          w4 = mutationObserver_disconnect r w3;
          w5 = containerResizeObserver_disconnect r w4;
          w6 = window_removeEventListener_resize r w5;
          w7 = clearInterval (l_dragPollInterval sc) w6
      in trackingMap_delete (l_this sc) (l_terminalId sc) w7)"

definition mutationObserver_callback :: "scope_ref \<Rightarrow> world \<Rightarrow> world" where
  "mutationObserver_callback r w =
     (if \<not> body_contains w (l_popoverEl (scopes w r)) then cleanup_closure r w else w)"

text \<open>
  The callback of the container-resize observer and the window-resize handler: both
  refresh the cached rectangle and request a batched pass.
\<close>

definition containerResizeObserver_callback :: "scope_ref \<Rightarrow> world \<Rightarrow> world" where
  "containerResizeObserver_callback r w =
     scheduleSharedUpdate
       (log_event (ReadContainerRect (l_cy (scopes w r)))
          (scope_map r (\<lambda>sc. sc\<lparr>l_cachedContainerRect := cy_container_rect w (l_cy sc),
                                    l_lastRectUpdate := date_now w\<rparr>) w))"

definition windowResizeHandler_call :: "scope_ref \<Rightarrow> world \<Rightarrow> world" where
  "windowResizeHandler_call r w =
     scheduleSharedUpdate
       (log_event (ReadContainerRect (l_cy (scopes w r)))
          (scope_map r (\<lambda>sc. sc\<lparr>l_cachedContainerRect := cy_container_rect w (l_cy sc),
                                    l_lastRectUpdate := date_now w\<rparr>) w))"

text \<open>The method \<^verbatim>\<open>cleanup(terminalId)\<close> of the instance \<open>this\<close>.\<close>

definition cleanup :: "nat \<Rightarrow> string \<Rightarrow> world \<Rightarrow> world" where
  "cleanup this terminalId w =
     (case map_of (trackingMap w this) terminalId of
        None \<Rightarrow> w
      | Some trackedEditor \<Rightarrow>
          (let cy = node_cy w (node trackedEditor);
               w1 = cy_off_viewport cy (onGraphChange trackedEditor) w;
               w2 = node_off_position (node trackedEditor) (onGraphChange trackedEditor) w1;
               w3 = resizeObserver_disconnect (resizeObserver trackedEditor) w2;
               w4 = mutationObserver_disconnect (mutationObserver trackedEditor) w3;
               w5 = containerResizeObserver_disconnect
                      (containerResizeObserver trackedEditor) w4;
               w6 = window_removeEventListener_resize (windowResizeHandler trackedEditor) w5;
               w7 = clearInterval (Some (dragPollInterval trackedEditor)) w6
           in trackingMap_delete this terminalId w7))"

definition cleanupAll :: "nat \<Rightarrow> world \<Rightarrow> world" where
  "cleanupAll this w = fold (\<lambda>id. cleanup this id) (map fst (trackingMap w this)) w"

text \<open>
  \<^verbatim>\<open>pinHoverEditorToNode\<close> after its first statement: the registration proper, in the
  order of the source. The last step is the assignment
  \<^verbatim>\<open>trackedEditor.dragPollInterval = window.setInterval(pollForDrag, 200)\<close>, which
  changes the object stored in the map and leaves the local variable alone.
\<close>

definition register_editor :: "nat \<Rightarrow> string \<Rightarrow> node_ref \<Rightarrow> el_ref \<Rightarrow> world \<Rightarrow> world" where
  "register_editor this terminalId nd el w =
     (let cy = node_cy w nd;
          r = next_scope w;
          cachedContainerRect = cy_container_rect w cy;
          lastRectUpdate = date_now w;
          initialZoom = cy_zoom w cy;
          nodeBoundingBox = node_renderedBoundingBox w nd;
          popoverRect = el_boundingClientRect w el;
          nodeViewportX = r_left cachedContainerRect + x1 nodeBoundingBox;
          nodeViewportY = r_top cachedContainerRect + y1 nodeBoundingBox;
          initialScreenOffsetX = r_left popoverRect - nodeViewportX;
          initialScreenOffsetY = r_top popoverRect - nodeViewportY;
          adjustedHeight = el_offsetHeight w el * 1.5;
          st = \<lparr>offsetX = screenToGraph initialScreenOffsetX initialZoom,
                offsetY = screenToGraph initialScreenOffsetY initialZoom,
                width = screenToGraph (el_offsetWidth w el) initialZoom,
                height = screenToGraph adjustedHeight initialZoom\<rparr>;
          w0 = w\<lparr>scopes := (scopes w)(r :=
                  \<lparr>l_this = this, l_terminalId = terminalId, l_cy = cy, l_node = nd,
                   l_popoverEl = el, l_dragPollInterval = None,
                   l_cachedContainerRect = cachedContainerRect,
                   l_lastRectUpdate = lastRectUpdate, l_state = st\<rparr>),
                 next_scope := r + 1,
                 trace := trace w @ [ReadContainerRect cy, ReadZoom cy, ReadNodeBox nd,
                                     ReadPopoverRect el, ReadOffsetSize el]\<rparr>;
          trackedEditor = \<lparr>node = nd, popoverEl = el, state = r, resizeObserver = r,
                           mutationObserver = r, containerResizeObserver = r,
                           windowResizeHandler = r, dragPollInterval = 0,
                           onGraphChange = r\<rparr>;
          w1 = trackingMap_set this terminalId trackedEditor w0;
          w2 = resizeObserver_observe r el w1;
          w3 = mutationObserver_observe r w2;
          w4 = containerResizeObserver_observe r cy w3;
          w5 = window_addEventListener_resize r w4;
          w6 = scheduleSharedUpdate w5;
          w7 = cy_on_viewport cy r w6;
          w8 = node_on_position nd r w7;
          (t, w9) = setInterval_pollForDrag r w8
      in trackingMap_set this terminalId (trackedEditor\<lparr>dragPollInterval := t\<rparr>) w9)"

definition pinHoverEditorToNode ::
  "nat \<Rightarrow> string \<Rightarrow> node_ref \<Rightarrow> el_ref \<Rightarrow> world \<Rightarrow> world"
where
  "pinHoverEditorToNode this terminalId nd el w =
     register_editor this terminalId nd el
       (if map_of (trackingMap w this) terminalId \<noteq> None
        then cleanup this terminalId w else w)"

section \<open>The process as a state machine\<close>

text \<open>
  What can happen to the process: the three public methods and the constructor, the
  callbacks the host delivers, and the changes the collaborators and the user make
  behind the program's back. The host delivers a callback only to a timer that runs, an
  observer that is connected and a listener that is registered, and a method is called
  only on an instance that was constructed.
\<close>

datatype op =
    New
  | Pin nat string node_ref el_ref
  | Cleanup nat string
  | CleanupAll nat
  | Frame
  | Tick timer_id
  | ResizeEntries scope_ref "DOMRect list"
  | Mutation scope_ref
  | ContainerResize scope_ref
  | WindowResize
  | ViewportEvent cy_ref
  | PositionEvent node_ref
  | SetZoom cy_ref real
  | SetContainerRect cy_ref DOMRect
  | SetNodeBox node_ref BoundingBox
  | SetPopoverGeometry el_ref DOMRect real real
  | SetStyleLeftTop el_ref "real option" "real option"
  | SetBodyContains el_ref bool
  | AdvanceTime nat

fun step :: "op \<Rightarrow> world \<Rightarrow> world" where
  "step New w = constructor w"
| "step (Pin this terminalId nd el) w =
     (if this < length (instances w) then pinHoverEditorToNode this terminalId nd el w else w)"
| "step (Cleanup this terminalId) w =
     (if this < length (instances w) then cleanup this terminalId w else w)"
| "step (CleanupAll this) w =
     (if this < length (instances w) then cleanupAll this w else w)"
| "step Frame w = animationFrame w"
| "step (Tick t) w =
     (case map_of (intervals w) t of None \<Rightarrow> w | Some r \<Rightarrow> pollForDrag r w)"
| "step (ResizeEntries r entries) w =
     (if r \<in> fst ` set (resize_observing w) then resizeObserver_callback r entries w else w)"
| "step (Mutation r) w =
     (if r \<in> set (mutation_observing w) then mutationObserver_callback r w else w)"
| "step (ContainerResize r) w =
     (if r \<in> fst ` set (container_observing w) then containerResizeObserver_callback r w
      else w)"
| "step WindowResize w = fold windowResizeHandler_call (window_resize_listeners w) w"
| "step (ViewportEvent c) w =
     fold (\<lambda>h. scheduleSharedUpdate) (filter (\<lambda>p. fst p = c) (viewport_handlers w)) w"
| "step (PositionEvent n) w =
     fold (\<lambda>h. scheduleSharedUpdate) (filter (\<lambda>p. fst p = n) (position_handlers w)) w"
| "step (SetZoom c z) w = w\<lparr>cy_zoom := (cy_zoom w)(c := z)\<rparr>"
| "step (SetContainerRect c rect) w =
     w\<lparr>cy_container_rect := (cy_container_rect w)(c := rect)\<rparr>"
| "step (SetNodeBox n box) w =
     w\<lparr>node_renderedBoundingBox := (node_renderedBoundingBox w)(n := box)\<rparr>"
| "step (SetPopoverGeometry e rect ow oh) w =
     w\<lparr>el_boundingClientRect := (el_boundingClientRect w)(e := rect),
       el_offsetWidth := (el_offsetWidth w)(e := ow),
       el_offsetHeight := (el_offsetHeight w)(e := oh)\<rparr>"
| "step (SetStyleLeftTop e l t) w =
     w\<lparr>styles := (styles w)(e := (styles w e)\<lparr>st_left := l, st_top := t\<rparr>)\<rparr>"
| "step (SetBodyContains e b) w = w\<lparr>body_contains := (body_contains w)(e := b)\<rparr>"
| "step (AdvanceTime d) w = w\<lparr>date_now := date_now w + int d\<rparr>"

definition run :: "op list \<Rightarrow> world \<Rightarrow> world" where
  "run ops w = fold step ops w"

text \<open>
  The process at start: no instance, nothing scheduled, nothing registered. Every graph
  view starts at zoom 1 with its container at the viewport origin, every node belongs to
  the graph view 0, every element is in the document and has no inline style.
\<close>

definition zero_rect :: DOMRect where
  "zero_rect = \<lparr>r_left = 0, r_top = 0, r_width = 0, r_height = 0\<rparr>"

definition initial_world :: world where
  "initial_world =
     \<lparr>instances = [], updatePending = False, sharedRAFId = None,
      scopes = (\<lambda>r. \<lparr>l_this = 0, l_terminalId = [], l_cy = 0, l_node = 0, l_popoverEl = 0,
                     l_dragPollInterval = None, l_cachedContainerRect = zero_rect,
                     l_lastRectUpdate = 0,
                     l_state = \<lparr>offsetX = 0, offsetY = 0, width = 0, height = 0\<rparr>\<rparr>),
      next_scope = 0, raf_queue = [], next_raf = 1, intervals = [], next_timer = 1,
      viewport_handlers = [], position_handlers = [], resize_observing = [],
      mutation_observing = [], container_observing = [], window_resize_listeners = [],
      styles = (\<lambda>e. \<lparr>st_position = None, st_left = None, st_top = None, st_width = None,
                     st_height = None, st_zIndex = None\<rparr>),
      trace = [],
      cy_zoom = (\<lambda>c. 1), cy_container_rect = (\<lambda>c. zero_rect), node_cy = (\<lambda>n. 0),
      node_renderedBoundingBox = (\<lambda>n. \<lparr>x1 = 0, y1 = 0\<rparr>),
      el_boundingClientRect = (\<lambda>e. zero_rect), el_offsetWidth = (\<lambda>e. 0),
      el_offsetHeight = (\<lambda>e. 0), body_contains = (\<lambda>e. True), date_now = 0\<rparr>"

inductive reachable :: "world \<Rightarrow> bool" where
  reachable_init: "reachable initial_world"
| reachable_step: "reachable w \<Longrightarrow> reachable (step a w)"

section \<open>What a batched pass is expected to do\<close>

text \<open>
  The pass as the specification describes it, to be compared with \<open>sharedUpdate\<close>: the
  target of one editor computed from the zoom, the container rectangle, the node's box and
  the editor's state; the style a panel ends with; the reads of a pass (zoom and container
  rectangle once, from the first editor's graph view, then every node box); its writes
  (six properties per panel).
\<close>

definition compute_update :: "real \<Rightarrow> DOMRect \<Rightarrow> world \<Rightarrow> TrackedEditor \<Rightarrow> update" where
  "compute_update zoom containerRect w editor =
     \<lparr>u_popoverEl = popoverEl editor,
      u_x = r_left containerRect + x1 (node_renderedBoundingBox w (node editor))
              + graphToScreen (offsetX (l_state (scopes w (state editor)))) zoom,
      u_y = r_top containerRect + y1 (node_renderedBoundingBox w (node editor))
              + graphToScreen (offsetY (l_state (scopes w (state editor)))) zoom,
      u_width = graphToScreen (width (l_state (scopes w (state editor)))) zoom,
      u_height = graphToScreen (height (l_state (scopes w (state editor)))) zoom\<rparr>"

definition styled :: "update \<Rightarrow> style" where
  "styled u = \<lparr>st_position = Some ''fixed'', st_left = Some (u_x u), st_top = Some (u_y u),
               st_width = Some (u_width u), st_height = Some (u_height u),
               st_zIndex = Some ''1000''\<rparr>"

definition write_events :: "el_ref \<Rightarrow> event list" where
  "write_events e = [WriteStyle e Position, WriteStyle e Left, WriteStyle e Top,
                     WriteStyle e Width, WriteStyle e Height, WriteStyle e ZIndex]"

definition pass_reads :: "world \<Rightarrow> event list" where
  "pass_reads w =
     (case allEditors w of
        [] \<Rightarrow> []
      | firstEditor # rest \<Rightarrow>
          ReadZoom (node_cy w (node firstEditor))
          # ReadContainerRect (node_cy w (node firstEditor))
          # map (\<lambda>e. ReadNodeBox (node e)) (allEditors w))"

definition pass_updates :: "world \<Rightarrow> update list" where
  "pass_updates w =
     (case allEditors w of
        [] \<Rightarrow> []
      | firstEditor # rest \<Rightarrow>
          map (compute_update (cy_zoom w (node_cy w (node firstEditor)))
                 (cy_container_rect w (node_cy w (node firstEditor))) w) (allEditors w))"

definition pass_writes :: "world \<Rightarrow> event list" where
  "pass_writes w = concat (map (\<lambda>e. write_events (popoverEl e)) (allEditors w))"

text \<open>The events an operation added to the log, and whether a log writes to an element.\<close>

definition new_events :: "world \<Rightarrow> world \<Rightarrow> event list" where
  "new_events w w' = drop (length (trace w)) (trace w')"

fun writes_to :: "el_ref \<Rightarrow> event list \<Rightarrow> bool" where
  "writes_to el [] = False"
| "writes_to el (WriteStyle e p # evs) = (e = el \<or> writes_to el evs)"
| "writes_to el (ev # evs) = writes_to el evs"

section \<open>Auxiliary descriptions and invariants\<close>

definition sched_inv :: "world \<Rightarrow> bool" where
  "sched_inv w = (if updatePending w then length (raf_queue w) = 1 else raf_queue w = [])"

text \<open>What pinning seeds, in the specification's words: initialize(node box, panel box, zoom).\<close>

definition initialize :: "DOMRect \<Rightarrow> BoundingBox \<Rightarrow> DOMRect \<Rightarrow> real \<Rightarrow> real \<Rightarrow> real \<Rightarrow> HoverEditorState" where
  "initialize containerRect nodeBox panelRect panelWidth panelHeight zoom =
     \<lparr>offsetX = (r_left panelRect - (r_left containerRect + x1 nodeBox)) / zoom,
      offsetY = (r_top panelRect - (r_top containerRect + y1 nodeBox)) / zoom,
      width = panelWidth / zoom,
      height = (panelHeight * 1.5) / zoom\<rparr>"

definition new_scope :: "world \<Rightarrow> nat \<Rightarrow> string \<Rightarrow> node_ref \<Rightarrow> el_ref \<Rightarrow> pin_scope" where
  "new_scope w this k nd el =
     \<lparr>l_this = this, l_terminalId = k, l_cy = node_cy w nd, l_node = nd, l_popoverEl = el,
      l_dragPollInterval = None,
      l_cachedContainerRect = cy_container_rect w (node_cy w nd),
      l_lastRectUpdate = date_now w,
      l_state = initialize (cy_container_rect w (node_cy w nd)) (node_renderedBoundingBox w nd)
                  (el_boundingClientRect w el) (el_offsetWidth w el) (el_offsetHeight w el)
                  (cy_zoom w (node_cy w nd))\<rparr>"

definition new_editor :: "world \<Rightarrow> node_ref \<Rightarrow> el_ref \<Rightarrow> TrackedEditor" where
  "new_editor w nd el =
     \<lparr>node = nd, popoverEl = el, state = next_scope w, resizeObserver = next_scope w,
      mutationObserver = next_scope w, containerResizeObserver = next_scope w,
      windowResizeHandler = next_scope w, dragPollInterval = next_timer w,
      onGraphChange = next_scope w\<rparr>"

text \<open>The detector in the specification's words.\<close>

definition cache_stale :: "world \<Rightarrow> scope_ref \<Rightarrow> bool" where
  "cache_stale w r = (date_now w - l_lastRectUpdate (scopes w r) > 300)"

definition tick_rect :: "world \<Rightarrow> scope_ref \<Rightarrow> DOMRect" where
  "tick_rect w r =
     (if cache_stale w r then cy_container_rect w (l_cy (scopes w r))
      else l_cachedContainerRect (scopes w r))"

definition applyDrag :: "HoverEditorState \<Rightarrow> real \<Rightarrow> real \<Rightarrow> real \<Rightarrow> HoverEditorState" where
  "applyDrag st dxScreen dyScreen zoom =
     st\<lparr>offsetX := offsetX st + dxScreen / zoom, offsetY := offsetY st + dyScreen / zoom\<rparr>"

definition expected_x :: "real \<Rightarrow> DOMRect \<Rightarrow> BoundingBox \<Rightarrow> HoverEditorState \<Rightarrow> real" where
  "expected_x zoom containerRect box st = r_left containerRect + x1 box + offsetX st * zoom"

definition expected_y :: "real \<Rightarrow> DOMRect \<Rightarrow> BoundingBox \<Rightarrow> HoverEditorState \<Rightarrow> real" where
  "expected_y zoom containerRect box st = r_top containerRect + y1 box + offsetY st * zoom"

definition diverged :: "real \<Rightarrow> DOMRect \<Rightarrow> BoundingBox \<Rightarrow> HoverEditorState \<Rightarrow> real \<Rightarrow> real \<Rightarrow> bool" where
  "diverged zoom containerRect box st actualX actualY =
     (\<bar>actualX - expected_x zoom containerRect box st\<bar> > 2
      \<or> \<bar>actualY - expected_y zoom containerRect box st\<bar> > 2)"

definition detect :: "real \<Rightarrow> DOMRect \<Rightarrow> BoundingBox \<Rightarrow> real \<Rightarrow> real \<Rightarrow> HoverEditorState \<Rightarrow> HoverEditorState" where
  "detect zoom containerRect box actualX actualY st =
     (if diverged zoom containerRect box st actualX actualY
      then applyDrag st (actualX - expected_x zoom containerRect box st)
             (actualY - expected_y zoom containerRect box st) zoom
      else st)"

definition tick_scope :: "world \<Rightarrow> scope_ref \<Rightarrow> pin_scope" where
  "tick_scope w r =
     (scopes w r)
       \<lparr>l_cachedContainerRect := tick_rect w r,
        l_lastRectUpdate := (if cache_stale w r then date_now w
                             else l_lastRectUpdate (scopes w r)),
        l_state := detect (cy_zoom w (l_cy (scopes w r))) (tick_rect w r)
                     (node_renderedBoundingBox w (l_node (scopes w r)))
                     (parseFloat_or_0 (st_left (styles w (l_popoverEl (scopes w r)))))
                     (parseFloat_or_0 (st_top (styles w (l_popoverEl (scopes w r)))))
                     (l_state (scopes w r))\<rparr>"

definition tick_events :: "world \<Rightarrow> scope_ref \<Rightarrow> event list" where
  "tick_events w r =
     ReadZoom (l_cy (scopes w r))
     # (if cache_stale w r then [ReadContainerRect (l_cy (scopes w r))] else [])
     @ [ReadNodeBox (l_node (scopes w r)),
        ReadStyle (l_popoverEl (scopes w r)) Left,
        ReadStyle (l_popoverEl (scopes w r)) Top]"

text \<open>Invariants of the reachable worlds.\<close>

definition editor_wired :: "world \<Rightarrow> TrackedEditor \<Rightarrow> bool" where
  "editor_wired w e =
     (state e < next_scope w \<and> resizeObserver e < next_scope w
      \<and> mutationObserver e < next_scope w \<and> containerResizeObserver e < next_scope w
      \<and> windowResizeHandler e < next_scope w \<and> onGraphChange e < next_scope w
      \<and> dragPollInterval e < next_timer w
      \<and> l_node (scopes w (state e)) = node e
      \<and> l_popoverEl (scopes w (state e)) = popoverEl e
      \<and> l_cy (scopes w (state e)) = node_cy w (node e))"

definition wired :: "world \<Rightarrow> bool" where
  "wired w = list_all (editor_wired w) (allEditors w)"

definition keys_distinct :: "world \<Rightarrow> bool" where
  "keys_distinct w = list_all (\<lambda>m. distinct (map fst m)) (instances w)"

definition no_local_timer :: "world \<Rightarrow> bool" where
  "no_local_timer w = (\<forall>r. l_dragPollInterval (scopes w r) = None)"

definition scope_static :: "pin_scope \<Rightarrow> nat \<times> string \<times> cy_ref \<times> node_ref \<times> el_ref \<times> timer_id option" where
  "scope_static sc =
     (l_this sc, l_terminalId sc, l_cy sc, l_node sc, l_popoverEl sc, l_dragPollInterval sc)"

definition static_view ::
  "world \<Rightarrow> (string \<times> TrackedEditor) list list \<times> nat \<times> nat \<times> (node_ref \<Rightarrow> cy_ref)
     \<times> (scope_ref \<Rightarrow> nat \<times> string \<times> cy_ref \<times> node_ref \<times> el_ref \<times> timer_id option)"
where
  "static_view w =
     (instances w, next_scope w, next_timer w, node_cy w, (\<lambda>r. scope_static (scopes w r)))"

fun structural :: "op \<Rightarrow> bool" where
  "structural New = True"
| "structural (Pin this k nd el) = True"
| "structural (Cleanup this k) = True"
| "structural (CleanupAll this) = True"
| "structural (Mutation r) = True"
| "structural a = False"

definition refresh_scope :: "world \<Rightarrow> scope_ref \<Rightarrow> pin_scope" where
  "refresh_scope w r =
     (scopes w r)\<lparr>l_cachedContainerRect := cy_container_rect w (l_cy (scopes w r)),
                  l_lastRectUpdate := date_now w\<rparr>"

section \<open>Descriptions and example worlds used by the claims\<close>

definition pass_cy :: "world \<Rightarrow> cy_ref" where
  "pass_cy w = node_cy w (node (hd (allEditors w)))"

definition nodeViewportX :: "world \<Rightarrow> node_ref \<Rightarrow> real" where
  "nodeViewportX w nd = r_left (cy_container_rect w (node_cy w nd)) + x1 (node_renderedBoundingBox w nd)"

definition nodeViewportY :: "world \<Rightarrow> node_ref \<Rightarrow> real" where
  "nodeViewportY w nd = r_top (cy_container_rect w (node_cy w nd)) + y1 (node_renderedBoundingBox w nd)"

definition torn_down :: "world \<Rightarrow> TrackedEditor \<Rightarrow> bool" where
  "torn_down w e =
     ((node_cy w (node e), onGraphChange e) \<notin> set (viewport_handlers w)
      \<and> (node e, onGraphChange e) \<notin> set (position_handlers w)
      \<and> resizeObserver e \<notin> fst ` set (resize_observing w)
      \<and> mutationObserver e \<notin> set (mutation_observing w)
      \<and> containerResizeObserver e \<notin> fst ` set (container_observing w)
      \<and> windowResizeHandler e \<notin> set (window_resize_listeners w)
      \<and> dragPollInterval e \<notin> fst ` set (intervals w))"

definition subscribed :: "world \<Rightarrow> TrackedEditor \<Rightarrow> bool" where
  "subscribed w e =
     ((node_cy w (node e), onGraphChange e) \<in> set (viewport_handlers w)
      \<and> (node e, onGraphChange e) \<in> set (position_handlers w)
      \<and> resizeObserver e \<in> fst ` set (resize_observing w)
      \<and> mutationObserver e \<in> set (mutation_observing w)
      \<and> containerResizeObserver e \<in> fst ` set (container_observing w)
      \<and> windowResizeHandler e \<in> set (window_resize_listeners w)
      \<and> dragPollInterval e \<in> fst ` set (intervals w))"

definition example_world :: world where
  "example_world =
     run [New, SetZoom 0 2,
          SetContainerRect 0 \<lparr>r_left = 50, r_top = 40, r_width = 800, r_height = 600\<rparr>,
          SetNodeBox 5 \<lparr>x1 = 100, y1 = 100\<rparr>,
          SetPopoverGeometry 10 \<lparr>r_left = 170, r_top = 160, r_width = 200, r_height = 100\<rparr>
            200 100,
          Pin 0 ''term-1'' 5 10, Pin 0 ''term-2'' 6 20, Frame,
          SetStyleLeftTop 10 (Some 300) (Some 200)] initial_world"

definition term_1 :: TrackedEditor where
  "term_1 = \<lparr>node = 5, popoverEl = 10, state = 0, resizeObserver = 0, mutationObserver = 0,
             containerResizeObserver = 0, windowResizeHandler = 0, dragPollInterval = 1,
             onGraphChange = 0\<rparr>"

definition term_2 :: TrackedEditor where
  "term_2 = \<lparr>node = 6, popoverEl = 20, state = 1, resizeObserver = 1, mutationObserver = 1,
             containerResizeObserver = 1, windowResizeHandler = 1, dragPollInterval = 2,
             onGraphChange = 1\<rparr>"


definition pin_ready_world :: world where
  "pin_ready_world =
     run [New, SetNodeBox 5 \<lparr>x1 = 50, y1 = 50\<rparr>,
          SetPopoverGeometry 10 \<lparr>r_left = 60, r_top = 70, r_width = 200, r_height = 100\<rparr>
            200 100] initial_world"

definition pinned_world :: world where
  "pinned_world = run [New, Pin 0 ''term'' 0 0] initial_world"

definition detached_world :: world where
  "detached_world = run [SetBodyContains 0 False, Mutation 0] pinned_world"

section \<open>The batched pass: reads, then writes\<close>

lemma read_phase_eq:
  "read_phase z cr es ups w =
     (ups @ map (compute_update z cr w) es,
      w\<lparr>trace := trace w @ map (\<lambda>e. ReadNodeBox (node e)) es\<rparr>)"
proof (induction es arbitrary: ups w)
  case Nil
  show ?case by simp
next
  case (Cons e es)
  have same: "compute_update z cr (log_event (ReadNodeBox (node e)) w) = compute_update z cr w"
    by (rule ext) (simp add: compute_update_def log_event_def)
  show ?case
    by (simp add: Cons.IH Let_def same) (simp add: compute_update_def log_event_def)
qed

lemma style_all_set:
  "(s::style)\<lparr>st_position := a, st_left := b, st_top := c, st_width := d,
     st_height := e, st_zIndex := f\<rparr> =
   \<lparr>st_position = a, st_left = b, st_top = c, st_width = d, st_height = e, st_zIndex = f\<rparr>"
  by (cases s) simp

lemma apply_update_eq:
  "apply_update u w =
     w\<lparr>styles := (styles w)(u_popoverEl u := styled u),
       trace := trace w @ write_events (u_popoverEl u)\<rparr>"
  by (simp add: apply_update_def Let_def log_event_def styled_def write_events_def style_all_set)

lemma write_phase_eq:
  "write_phase us w =
     w\<lparr>styles := fold (\<lambda>u s. s(u_popoverEl u := styled u)) us (styles w),
       trace := trace w @ concat (map (\<lambda>u. write_events (u_popoverEl u)) us)\<rparr>"
proof (induction us arbitrary: w)
  case Nil
  show ?case by simp
next
  case (Cons u us)
  show ?case by (simp add: Cons.IH apply_update_eq)
qed

lemma sharedUpdate_eq:
  "sharedUpdate w =
     w\<lparr>updatePending := False,
       styles := fold (\<lambda>u s. s(u_popoverEl u := styled u)) (pass_updates w) (styles w),
       trace := trace w @ pass_reads w @ pass_writes w\<rparr>"
proof (cases "allEditors w")
  case Nil
  then show ?thesis
    by (simp add: sharedUpdate_def pass_updates_def pass_reads_def pass_writes_def)
next
  case (Cons e es)
  have cu: "\<And>z cr t. compute_update z cr (w\<lparr>trace := t\<rparr>) = compute_update z cr w"
    by (rule ext) (simp add: compute_update_def)
  have pe: "\<And>z cr w' x. u_popoverEl (compute_update z cr w' x) = popoverEl x"
    by (simp add: compute_update_def)
  show ?thesis
    unfolding sharedUpdate_def pass_updates_def pass_reads_def pass_writes_def Cons 
    by (simp add: Let_def read_phase_eq write_phase_eq log_event_def cu pe o_def)
qed

lemma writes_to_append [simp]: "writes_to el (xs @ ys) = (writes_to el xs \<or> writes_to el ys)"
  by (induction el xs rule: writes_to.induct) auto

lemma writes_to_write_events [simp]: "writes_to el (write_events e) = (e = el)"
  by (simp add: write_events_def)

lemma writes_to_reads: "list_all is_read evs \<Longrightarrow> \<not> writes_to el evs"
  by (induction el evs rule: writes_to.induct) (auto simp: is_read_def)

lemma pass_reads_are_reads: "list_all is_read (pass_reads w)"
  by (auto simp: pass_reads_def is_read_def list_all_iff split: list.splits)

lemma pass_writes_are_writes: "list_all is_write (pass_writes w)"
  by (simp add: pass_writes_def write_events_def list_all_iff)

lemma writes_to_concat_write_events:
  "writes_to el (concat (map (\<lambda>e. write_events (popoverEl e)) es)) = (el \<in> popoverEl ` set es)"
  by (induction es) auto

lemma writes_to_pass_writes:
  "writes_to el (pass_writes w) = (el \<in> popoverEl ` set (allEditors w))"
  by (simp add: pass_writes_def writes_to_concat_write_events)

text \<open>
  C3. One execution of the batched pass adds to the log first its geometry reads (the
  zoom and the container rectangle, then the node box of every tracked panel) and only
  then its writes (six style properties for every tracked panel): no write to any panel
  comes before a read for any panel.
\<close>

theorem sharedUpdate_reads_precede_writes:
  "new_events w (sharedUpdate w) = pass_reads w @ pass_writes w
   \<and> list_all is_read (pass_reads w) \<and> list_all is_write (pass_writes w)"
  by (simp add: new_events_def sharedUpdate_eq pass_reads_are_reads pass_writes_are_writes)

section \<open>What each operation changes\<close>

lemma host_upds:
  "log_event ev w = trace_update (\<lambda>t. t @ [ev]) w"
  "cy_on_viewport c h w = viewport_handlers_update (\<lambda>hs. hs @ [(c, h)]) w"
  "cy_off_viewport c h w = viewport_handlers_update (filter (\<lambda>p. p \<noteq> (c, h))) w"
  "node_on_position n h w = position_handlers_update (\<lambda>hs. hs @ [(n, h)]) w"
  "node_off_position n h w = position_handlers_update (filter (\<lambda>p. p \<noteq> (n, h))) w"
  "resizeObserver_observe ob e w = resize_observing_update (\<lambda>os. os @ [(ob, e)]) w"
  "resizeObserver_disconnect ob w = resize_observing_update (filter (\<lambda>p. fst p \<noteq> ob)) w"
  "mutationObserver_observe ob w = mutation_observing_update (\<lambda>os. os @ [ob]) w"
  "mutationObserver_disconnect ob w = mutation_observing_update (filter (\<lambda>p. p \<noteq> ob)) w"
  "containerResizeObserver_observe ob c w = container_observing_update (\<lambda>os. os @ [(ob, c)]) w"
  "containerResizeObserver_disconnect ob w =
     container_observing_update (filter (\<lambda>p. fst p \<noteq> ob)) w"
  "window_addEventListener_resize h w = window_resize_listeners_update (\<lambda>hs. hs @ [h]) w"
  "window_removeEventListener_resize h w =
     window_resize_listeners_update (filter (\<lambda>p. p \<noteq> h)) w"
  "clearInterval None w = w"
  "clearInterval (Some i) w = intervals_update (filter (\<lambda>p. fst p \<noteq> i)) w"
  "trackingMap_set this k v w =
     instances_update (\<lambda>is. is[this := AList.update k v (is ! this)]) w"
  "trackingMap_delete this k w =
     instances_update (\<lambda>is. is[this := AList.delete k (is ! this)]) w"
  "scope_map r f w = scopes_update (\<lambda>s. s(r := f (s r))) w"
  by (simp_all add: log_event_def cy_on_viewport_def cy_off_viewport_def node_on_position_def
  node_off_position_def resizeObserver_observe_def resizeObserver_disconnect_def
  mutationObserver_observe_def mutationObserver_disconnect_def
  containerResizeObserver_observe_def containerResizeObserver_disconnect_def
  window_addEventListener_resize_def window_removeEventListener_resize_def
  clearInterval_def trackingMap_set_def trackingMap_delete_def scope_map_def)

lemma setInterval_pollForDrag_upd:
  "setInterval_pollForDrag r w =
     (next_timer w, next_timer_update Suc (intervals_update (\<lambda>ts. ts @ [(next_timer w, r)]) w))"
  by (simp add: setInterval_pollForDrag_def)

lemma scheduleSharedUpdate_upd:
  "scheduleSharedUpdate w =
     (if updatePending w then w
      else next_raf_update Suc (raf_queue_update (\<lambda>q. q @ [next_raf w])
             (sharedRAFId_update (\<lambda>x. Some (next_raf w)) (updatePending_update (\<lambda>x. True) w))))"
  by (simp add: scheduleSharedUpdate_def)

lemma list_update_nth_twice:
  "xs[i := f (xs[i := y] ! i)] = xs[i := f y]"
  by (cases "i < length xs") (simp_all add: list_update_beyond)

lemma register_editor_eq:
  "register_editor this k nd el w =
     w\<lparr>instances := (instances w)[this := AList.update k (new_editor w nd el) (instances w ! this)],
       updatePending := True,
       sharedRAFId := (if updatePending w then sharedRAFId w else Some (next_raf w)),
       scopes := (scopes w)(next_scope w := new_scope w this k nd el),
       next_scope := next_scope w + 1,
       raf_queue := (if updatePending w then raf_queue w else raf_queue w @ [next_raf w]),
       next_raf := (if updatePending w then next_raf w else next_raf w + 1),
       intervals := intervals w @ [(next_timer w, next_scope w)],
       next_timer := next_timer w + 1,
       viewport_handlers := viewport_handlers w @ [(node_cy w nd, next_scope w)],
       position_handlers := position_handlers w @ [(nd, next_scope w)],
       resize_observing := resize_observing w @ [(next_scope w, el)],
       mutation_observing := mutation_observing w @ [next_scope w],
       container_observing := container_observing w @ [(next_scope w, node_cy w nd)],
       window_resize_listeners := window_resize_listeners w @ [next_scope w],
       trace := trace w @ [ReadContainerRect (node_cy w nd), ReadZoom (node_cy w nd),
                           ReadNodeBox nd, ReadPopoverRect el, ReadOffsetSize el]\<rparr>"
  by (cases "updatePending w";
      simp add: register_editor_def Let_def host_upds setInterval_pollForDrag_upd
        scheduleSharedUpdate_upd new_scope_def new_editor_def initialize_def screenToGraph_def;
      rule world.equality; simp add: list_update_nth_twice)

lemma pollForDrag_eq:
  "pollForDrag r w =
     w\<lparr>scopes := (scopes w)(r := tick_scope w r), trace := trace w @ tick_events w r\<rparr>"
proof (cases "cache_stale w r")
  case True
  then have s: "date_now w - l_lastRectUpdate (scopes w r) > 300"
    by (simp add: cache_stale_def)
  show ?thesis
    by (cases "diverged (cy_zoom w (l_cy (scopes w r))) (tick_rect w r)
                 (node_renderedBoundingBox w (l_node (scopes w r))) (l_state (scopes w r))
                 (parseFloat_or_0 (st_left (styles w (l_popoverEl (scopes w r)))))
                 (parseFloat_or_0 (st_top (styles w (l_popoverEl (scopes w r)))))";
        simp add: pollForDrag_def getContainerRect_def Let_def host_upds tick_scope_def
          tick_events_def tick_rect_def detect_def diverged_def expected_x_def expected_y_def
          applyDrag_def graphToScreen_def screenToGraph_def True s;
        rule world.equality; simp)
next
  case False
  then have s: "\<not> date_now w - l_lastRectUpdate (scopes w r) > 300"
    by (simp add: cache_stale_def)
  show ?thesis
    by (cases "diverged (cy_zoom w (l_cy (scopes w r))) (tick_rect w r)
                 (node_renderedBoundingBox w (l_node (scopes w r))) (l_state (scopes w r))
                 (parseFloat_or_0 (st_left (styles w (l_popoverEl (scopes w r)))))
                 (parseFloat_or_0 (st_top (styles w (l_popoverEl (scopes w r)))))";
        simp add: pollForDrag_def getContainerRect_def Let_def host_upds tick_scope_def
          tick_events_def tick_rect_def detect_def diverged_def expected_x_def expected_y_def
          applyDrag_def graphToScreen_def screenToGraph_def False s;
        rule world.equality; simp)
qed

lemma cleanup_eq:
  "cleanup this k w =
     (case map_of (instances w ! this) k of
        None \<Rightarrow> w
      | Some e \<Rightarrow>
          w\<lparr>instances := (instances w)[this := AList.delete k (instances w ! this)],
            intervals := filter (\<lambda>p. fst p \<noteq> dragPollInterval e) (intervals w),
            viewport_handlers :=
              filter (\<lambda>p. p \<noteq> (node_cy w (node e), onGraphChange e)) (viewport_handlers w),
            position_handlers :=
              filter (\<lambda>p. p \<noteq> (node e, onGraphChange e)) (position_handlers w),
            resize_observing := filter (\<lambda>p. fst p \<noteq> resizeObserver e) (resize_observing w),
            mutation_observing := filter (\<lambda>p. p \<noteq> mutationObserver e) (mutation_observing w),
            container_observing :=
              filter (\<lambda>p. fst p \<noteq> containerResizeObserver e) (container_observing w),
            window_resize_listeners :=
              filter (\<lambda>p. p \<noteq> windowResizeHandler e) (window_resize_listeners w)\<rparr>)"
  by (cases "map_of (instances w ! this) k";
      simp add: cleanup_def trackingMap_def Let_def host_upds; rule world.equality; simp)

lemma cleanup_closure_eq:
  "cleanup_closure r w =
     w\<lparr>instances := (instances w)[l_this (scopes w r) :=
                        AList.delete (l_terminalId (scopes w r))
                          (instances w ! l_this (scopes w r))],
       intervals := (case l_dragPollInterval (scopes w r) of
                       None \<Rightarrow> intervals w
                     | Some i \<Rightarrow> filter (\<lambda>p. fst p \<noteq> i) (intervals w)),
       viewport_handlers := filter (\<lambda>p. p \<noteq> (l_cy (scopes w r), r)) (viewport_handlers w),
       position_handlers := filter (\<lambda>p. p \<noteq> (l_node (scopes w r), r)) (position_handlers w),
       resize_observing := filter (\<lambda>p. fst p \<noteq> r) (resize_observing w),
       mutation_observing := filter (\<lambda>p. p \<noteq> r) (mutation_observing w),
       container_observing := filter (\<lambda>p. fst p \<noteq> r) (container_observing w),
       window_resize_listeners := filter (\<lambda>p. p \<noteq> r) (window_resize_listeners w)\<rparr>"
  by (cases "l_dragPollInterval (scopes w r)";
      simp add: cleanup_closure_def Let_def host_upds; rule world.equality; simp)

lemma containerResizeObserver_callback_eq:
  "containerResizeObserver_callback r w =
     scheduleSharedUpdate
       (w\<lparr>scopes := (scopes w)(r := refresh_scope w r),
          trace := trace w @ [ReadContainerRect (l_cy (scopes w r))]\<rparr>)"
  by (simp add: containerResizeObserver_callback_def host_upds refresh_scope_def;
      rule arg_cong [where f = scheduleSharedUpdate]; rule world.equality; simp)

lemma windowResizeHandler_call_eq:
  "windowResizeHandler_call r w =
     scheduleSharedUpdate
       (w\<lparr>scopes := (scopes w)(r := refresh_scope w r),
          trace := trace w @ [ReadContainerRect (l_cy (scopes w r))]\<rparr>)"
  by (simp add: windowResizeHandler_call_def host_upds refresh_scope_def;
      rule arg_cong [where f = scheduleSharedUpdate]; rule world.equality; simp)

lemma scheduleSharedUpdate_eq:
  "scheduleSharedUpdate w =
     w\<lparr>updatePending := True,
       sharedRAFId := (if updatePending w then sharedRAFId w else Some (next_raf w)),
       raf_queue := (if updatePending w then raf_queue w else raf_queue w @ [next_raf w]),
       next_raf := (if updatePending w then next_raf w else next_raf w + 1)\<rparr>"
  by (simp add: scheduleSharedUpdate_def)

lemma static_viewD:
  assumes "static_view w' = static_view w"
  shows "instances w' = instances w" "next_scope w' = next_scope w"
    "next_timer w' = next_timer w" "node_cy w' = node_cy w"
    "l_this (scopes w' r) = l_this (scopes w r)"
    "l_terminalId (scopes w' r) = l_terminalId (scopes w r)"
    "l_cy (scopes w' r) = l_cy (scopes w r)"
    "l_node (scopes w' r) = l_node (scopes w r)"
    "l_popoverEl (scopes w' r) = l_popoverEl (scopes w r)"
    "l_dragPollInterval (scopes w' r) = l_dragPollInterval (scopes w r)"
proof -
  from assms have "scope_static (scopes w' r) = scope_static (scopes w r)"
    by (simp add: static_view_def fun_eq_iff)
  then show "l_this (scopes w' r) = l_this (scopes w r)"
    "l_terminalId (scopes w' r) = l_terminalId (scopes w r)"
    "l_cy (scopes w' r) = l_cy (scopes w r)"
    "l_node (scopes w' r) = l_node (scopes w r)"
    "l_popoverEl (scopes w' r) = l_popoverEl (scopes w r)"
    "l_dragPollInterval (scopes w' r) = l_dragPollInterval (scopes w r)"
    by (simp_all add: scope_static_def)
  from assms show "instances w' = instances w" "next_scope w' = next_scope w"
    "next_timer w' = next_timer w" "node_cy w' = node_cy w"
    by (simp_all add: static_view_def)
qed

lemma static_view_invariants:
  assumes "static_view w' = static_view w"
  shows "wired w' = wired w" "keys_distinct w' = keys_distinct w"
    "no_local_timer w' = no_local_timer w"
proof -
  have "editor_wired w' = editor_wired w"
    by (rule ext) (simp add: editor_wired_def static_viewD [OF assms])
  then show "wired w' = wired w"
    by (simp add: wired_def allEditors_def static_viewD [OF assms])
  show "keys_distinct w' = keys_distinct w"
    by (simp add: keys_distinct_def static_viewD [OF assms])
  show "no_local_timer w' = no_local_timer w"
    by (simp add: no_local_timer_def static_viewD [OF assms])
qed

lemma static_view_scheduleSharedUpdate [simp]:
  "static_view (scheduleSharedUpdate w) = static_view w"
  by (simp add: scheduleSharedUpdate_eq static_view_def)

lemma static_view_sharedUpdate [simp]: "static_view (sharedUpdate w) = static_view w"
  by (simp add: sharedUpdate_eq static_view_def)

lemma static_view_pollForDrag [simp]: "static_view (pollForDrag r w) = static_view w"
  by (simp add: pollForDrag_eq static_view_def tick_scope_def scope_static_def fun_eq_iff)

lemma static_view_resizeObserver_callback [simp]:
  "static_view (resizeObserver_callback r entries w) = static_view w"
proof (induction entries arbitrary: w)
  case Nil
  show ?case by simp
next
  case (Cons c entries)
  show ?case
    by (simp add: Cons.IH) (simp add: static_view_def host_upds scope_static_def fun_eq_iff)
qed

lemma static_view_containerResizeObserver_callback [simp]:
  "static_view (containerResizeObserver_callback r w) = static_view w"
  by (simp add: containerResizeObserver_callback_eq)
     (simp add: static_view_def refresh_scope_def scope_static_def fun_eq_iff)

lemma static_view_windowResizeHandler_call [simp]:
  "static_view (windowResizeHandler_call r w) = static_view w"
  by (simp add: windowResizeHandler_call_eq)
     (simp add: static_view_def refresh_scope_def scope_static_def fun_eq_iff)

lemma fold_preserves:
  assumes "\<And>x v. P v \<Longrightarrow> P (f x v)" and "P v"
  shows "P (fold f xs v)"
  using assms(2) by (induction xs arbitrary: v) (simp_all add: assms(1))

lemma fold_keeps:
  assumes "\<And>x v. g (f x v) = g v"
  shows "g (fold f xs v) = g v"
  by (induction xs arbitrary: v) (simp_all add: assms)

lemma static_view_animationFrame [simp]: "static_view (animationFrame w) = static_view w"
proof -
  have "static_view (animationFrame w) = static_view (w\<lparr>raf_queue := []\<rparr>)"
    unfolding animationFrame_def by (rule fold_keeps) simp
  then show ?thesis by (simp add: static_view_def)
qed

lemma editor_wired_mono:
  assumes "editor_wired w e"
    and "next_scope w \<le> next_scope w'" and "next_timer w \<le> next_timer w'"
    and "node_cy w' = node_cy w"
    and "\<And>r. r < next_scope w \<Longrightarrow> scope_static (scopes w' r) = scope_static (scopes w r)"
  shows "editor_wired w' e"
proof -
  from assms(1) have lt: "state e < next_scope w"
    by (simp add: editor_wired_def)
  from assms(5) [OF lt] have
    "l_node (scopes w' (state e)) = l_node (scopes w (state e))"
    "l_popoverEl (scopes w' (state e)) = l_popoverEl (scopes w (state e))"
    "l_cy (scopes w' (state e)) = l_cy (scopes w (state e))"
    by (simp_all add: scope_static_def)
  with assms(1-4) show ?thesis
    by (simp add: editor_wired_def)
qed

lemma wired_step:
  assumes "wired w"
    and "next_scope w \<le> next_scope w'" and "next_timer w \<le> next_timer w'"
    and "node_cy w' = node_cy w"
    and "\<And>r. r < next_scope w \<Longrightarrow> scope_static (scopes w' r) = scope_static (scopes w r)"
    and "\<And>e. e \<in> set (allEditors w') \<Longrightarrow> e \<in> set (allEditors w) \<or> editor_wired w' e"
  shows "wired w'"
  unfolding wired_def list_all_iff
proof
  fix e assume "e \<in> set (allEditors w')"
  from assms(6) [OF this] show "editor_wired w' e"
  proof
    assume "e \<in> set (allEditors w)"
    with assms(1) have "editor_wired w e"
      by (simp add: wired_def list_all_iff)
    then show ?thesis
      by (rule editor_wired_mono) (fact assms(2-5))+
  qed
qed

lemma editors_list_update:
  "set (concat (map (map snd) (xs[i := m]))) \<subseteq> set (concat (map (map snd) xs)) \<union> snd ` set m"
proof -
  have "set (xs[i := m]) \<subseteq> insert m (set xs)"
    by (rule set_update_subset_insert)
  then show ?thesis by auto
qed

lemma editors_nth:
  "i < length xs \<Longrightarrow> snd ` set (xs ! i) \<subseteq> set (concat (map (map snd) xs))"
  by (force intro: bexI [of _ "xs ! i"])

lemma set_alist_update: "set (AList.update k v m) \<subseteq> insert (k, v) (set m)"
  by (induction m) auto

lemma set_alist_delete: "set (AList.delete k m) \<subseteq> set m"
  by (auto simp: AList.delete_eq)

lemma editors_delete:
  "set (concat (map (map snd) (xs[i := AList.delete k (xs ! i)])))
     \<subseteq> set (concat (map (map snd) xs))"
proof (cases "i < length xs")
  case True
  have "snd ` set (AList.delete k (xs ! i)) \<subseteq> snd ` set (xs ! i)"
    using set_alist_delete [of k "xs ! i"] by blast
  with editors_nth [OF True] editors_list_update [of xs i "AList.delete k (xs ! i)"]
  show ?thesis by blast
next
  case False
  then show ?thesis by (simp add: list_update_beyond)
qed

lemma editors_update:
  "set (concat (map (map snd) (xs[i := AList.update k v (xs ! i)])))
     \<subseteq> insert v (set (concat (map (map snd) xs)))"
proof (cases "i < length xs")
  case True
  have "snd ` set (AList.update k v (xs ! i)) \<subseteq> insert v (snd ` set (xs ! i))"
    using set_alist_update [of k v "xs ! i"] by force
  with editors_nth [OF True] editors_list_update [of xs i "AList.update k v (xs ! i)"]
  show ?thesis by blast
next
  case False
  then show ?thesis by (auto simp: list_update_beyond)
qed

lemma list_all_list_update:
  "list_all P xs \<Longrightarrow> (i < length xs \<Longrightarrow> P y) \<Longrightarrow> list_all P (xs[i := y])"
  by (cases "i < length xs")
     (auto simp: list_all_iff list_update_beyond dest!: subsetD [OF set_update_subset_insert])

subsection \<open>Wiring of the tracked editors\<close>

lemma wired_constructor: "wired w \<Longrightarrow> wired (constructor w)"
  by (erule wired_step) (simp_all add: constructor_def allEditors_def)

lemma wired_cleanup: "wired w \<Longrightarrow> wired (cleanup this k w)"
proof (cases "map_of (instances w ! this) k")
  case None
  assume "wired w"
  with None show ?thesis by (simp add: cleanup_eq)
next
  case (Some e)
  assume "wired w"
  then show ?thesis
    by (rule wired_step)
       (use editors_delete [of "instances w" this k] in
         \<open>auto simp: cleanup_eq Some allEditors_def\<close>)
qed

lemma wired_cleanup_closure: "wired w \<Longrightarrow> wired (cleanup_closure r w)"
  by (erule wired_step)
     (use editors_delete [of "instances w" "l_this (scopes w r)" "l_terminalId (scopes w r)"] in
       \<open>auto simp: cleanup_closure_eq allEditors_def\<close>)

lemma editor_wired_new:
  "editor_wired (register_editor this k nd el w) (new_editor w nd el)"
  by (simp add: register_editor_eq editor_wired_def new_editor_def new_scope_def)

lemma wired_register_editor: "wired w \<Longrightarrow> wired (register_editor this k nd el w)"
proof (erule wired_step)
  fix e assume "e \<in> set (allEditors (register_editor this k nd el w))"
  then have "e \<in> insert (new_editor w nd el) (set (allEditors w))"
    using editors_update [of "instances w" this k "new_editor w nd el"]
    by (auto simp: register_editor_eq allEditors_def)
  then show "e \<in> set (allEditors w) \<or> editor_wired (register_editor this k nd el w) e"
    using editor_wired_new [of this k nd el w] by auto
qed (simp_all add: register_editor_eq)

lemma wired_pinHoverEditorToNode: "wired w \<Longrightarrow> wired (pinHoverEditorToNode this k nd el w)"
  by (simp add: pinHoverEditorToNode_def wired_register_editor wired_cleanup)

lemma wired_cleanupAll: "wired w \<Longrightarrow> wired (cleanupAll this w)"
  unfolding cleanupAll_def by (rule fold_preserves) (rule wired_cleanup)

subsection \<open>One entry per identifier\<close>

lemma keys_distinct_constructor: "keys_distinct w \<Longrightarrow> keys_distinct (constructor w)"
  by (simp add: keys_distinct_def constructor_def)

lemma keys_distinct_nth:
  "keys_distinct w \<Longrightarrow> this < length (instances w) \<Longrightarrow> distinct (map fst (instances w ! this))"
  by (simp add: keys_distinct_def list_all_length)

lemma keys_distinct_delete:
  assumes "keys_distinct w"
  shows "list_all (\<lambda>m. distinct (map fst m))
           ((instances w)[this := AList.delete k (instances w ! this)])"
proof (rule list_all_list_update)
  show "list_all (\<lambda>m. distinct (map fst m)) (instances w)"
    using assms by (simp add: keys_distinct_def)
  show "distinct (map fst (AList.delete k (instances w ! this)))" if "this < length (instances w)"
    by (rule distinct_delete) (rule keys_distinct_nth [OF assms that])
qed

lemma keys_distinct_update:
  assumes "keys_distinct w"
  shows "list_all (\<lambda>m. distinct (map fst m))
           ((instances w)[this := AList.update k v (instances w ! this)])"
proof (rule list_all_list_update)
  show "list_all (\<lambda>m. distinct (map fst m)) (instances w)"
    using assms by (simp add: keys_distinct_def)
  show "distinct (map fst (AList.update k v (instances w ! this)))" if "this < length (instances w)"
    by (rule distinct_update) (rule keys_distinct_nth [OF assms that])
qed

lemma keys_distinct_cleanup:
  assumes "keys_distinct w"
  shows "keys_distinct (cleanup this k w)"
proof (cases "map_of (instances w ! this) k")
  case None
  with assms show ?thesis by (simp add: cleanup_eq)
next
  case (Some e)
  show ?thesis
    using keys_distinct_delete [OF assms, of this k]
    by (simp add: cleanup_eq Some keys_distinct_def)
qed

lemma keys_distinct_cleanup_closure:
  assumes "keys_distinct w"
  shows "keys_distinct (cleanup_closure r w)"
  using keys_distinct_delete [OF assms, of "l_this (scopes w r)" "l_terminalId (scopes w r)"]
  by (simp add: cleanup_closure_eq keys_distinct_def)

lemma keys_distinct_register_editor:
  assumes "keys_distinct w"
  shows "keys_distinct (register_editor this k nd el w)"
  using keys_distinct_update [OF assms, of this k "new_editor w nd el"]
  by (simp add: register_editor_eq keys_distinct_def)

lemma keys_distinct_pinHoverEditorToNode:
  "keys_distinct w \<Longrightarrow> keys_distinct (pinHoverEditorToNode this k nd el w)"
  by (simp add: pinHoverEditorToNode_def keys_distinct_register_editor keys_distinct_cleanup)

lemma keys_distinct_cleanupAll: "keys_distinct w \<Longrightarrow> keys_distinct (cleanupAll this w)"
  unfolding cleanupAll_def by (rule fold_preserves) (rule keys_distinct_cleanup)

subsection \<open>The local timer variable\<close>

lemma no_local_timer_constructor: "no_local_timer w \<Longrightarrow> no_local_timer (constructor w)"
  by (simp add: no_local_timer_def constructor_def)

lemma no_local_timer_cleanup: "no_local_timer w \<Longrightarrow> no_local_timer (cleanup this k w)"
  by (cases "map_of (instances w ! this) k") (simp_all add: cleanup_eq no_local_timer_def)

lemma no_local_timer_cleanup_closure:
  "no_local_timer w \<Longrightarrow> no_local_timer (cleanup_closure r w)"
  by (simp add: cleanup_closure_eq no_local_timer_def)

lemma no_local_timer_register_editor:
  "no_local_timer w \<Longrightarrow> no_local_timer (register_editor this k nd el w)"
  by (simp add: register_editor_eq no_local_timer_def new_scope_def)

lemma no_local_timer_pinHoverEditorToNode:
  "no_local_timer w \<Longrightarrow> no_local_timer (pinHoverEditorToNode this k nd el w)"
  by (simp add: pinHoverEditorToNode_def no_local_timer_register_editor no_local_timer_cleanup)

lemma no_local_timer_cleanupAll: "no_local_timer w \<Longrightarrow> no_local_timer (cleanupAll this w)"
  unfolding cleanupAll_def by (rule fold_preserves) (rule no_local_timer_cleanup)

subsection \<open>The pending flag and the frame queue\<close>

lemma sched_inv_cong:
  "updatePending w' = updatePending w \<Longrightarrow> raf_queue w' = raf_queue w \<Longrightarrow>
   sched_inv w' = sched_inv w"
  by (simp add: sched_inv_def)

lemma sched_inv_scheduleSharedUpdate: "sched_inv w \<Longrightarrow> sched_inv (scheduleSharedUpdate w)"
  by (simp add: scheduleSharedUpdate_eq sched_inv_def)

lemma sched_inv_animationFrame: "sched_inv w \<Longrightarrow> sched_inv (animationFrame w)"
proof (cases "updatePending w")
  case True
  assume "sched_inv w"
  with True obtain cb where "raf_queue w = [cb]"
    by (auto simp: sched_inv_def length_Suc_conv)
  then show ?thesis
    by (simp add: animationFrame_def sharedUpdate_eq sched_inv_def)
next
  case False
  assume "sched_inv w"
  with False show ?thesis
    by (simp add: animationFrame_def sched_inv_def)
qed

lemma sched_inv_constructor: "sched_inv w \<Longrightarrow> sched_inv (constructor w)"
  by (simp add: constructor_def sched_inv_def)

lemma sched_inv_cleanup: "sched_inv w \<Longrightarrow> sched_inv (cleanup this k w)"
  by (cases "map_of (instances w ! this) k") (simp_all add: cleanup_eq sched_inv_def)

lemma sched_inv_cleanup_closure: "sched_inv w \<Longrightarrow> sched_inv (cleanup_closure r w)"
  by (simp add: cleanup_closure_eq sched_inv_def)

lemma sched_inv_register_editor: "sched_inv w \<Longrightarrow> sched_inv (register_editor this k nd el w)"
  by (simp add: register_editor_eq sched_inv_def)

lemma sched_inv_pinHoverEditorToNode:
  "sched_inv w \<Longrightarrow> sched_inv (pinHoverEditorToNode this k nd el w)"
  by (simp add: pinHoverEditorToNode_def sched_inv_register_editor sched_inv_cleanup)

lemma sched_inv_cleanupAll: "sched_inv w \<Longrightarrow> sched_inv (cleanupAll this w)"
  unfolding cleanupAll_def by (rule fold_preserves) (rule sched_inv_cleanup)

lemma sched_inv_pollForDrag: "sched_inv w \<Longrightarrow> sched_inv (pollForDrag r w)"
  by (simp add: pollForDrag_eq sched_inv_def)

lemma sched_inv_resizeObserver_callback:
  "sched_inv w \<Longrightarrow> sched_inv (resizeObserver_callback r entries w)"
  by (induction entries arbitrary: w) (simp_all add: host_upds sched_inv_def)

lemma sched_inv_containerResizeObserver_callback:
  "sched_inv w \<Longrightarrow> sched_inv (containerResizeObserver_callback r w)"
  by (simp add: containerResizeObserver_callback_eq scheduleSharedUpdate_eq sched_inv_def)

lemma sched_inv_windowResizeHandler_call:
  "sched_inv w \<Longrightarrow> sched_inv (windowResizeHandler_call r w)"
  by (simp add: windowResizeHandler_call_eq scheduleSharedUpdate_eq sched_inv_def)

subsection \<open>Every reachable world satisfies the invariants\<close>

lemma static_view_step: "\<not> structural a \<Longrightarrow> static_view (step a w) = static_view w"
proof (cases a)
  case WindowResize
  show ?thesis
    unfolding WindowResize step.simps by (rule fold_keeps) simp
next
  case (ViewportEvent c)
  show ?thesis
    unfolding ViewportEvent step.simps by (rule fold_keeps) simp
next
  case (PositionEvent n)
  show ?thesis
    unfolding PositionEvent step.simps by (rule fold_keeps) simp
qed (simp_all split: option.splits, simp_all add: static_view_def)

lemma wired_step_op: "wired w \<Longrightarrow> wired (step a w)"
proof (cases "structural a")
  case True
  assume "wired w"
  with True show ?thesis
    by (cases a)
       (simp_all add: wired_constructor wired_pinHoverEditorToNode wired_cleanup
          wired_cleanupAll wired_cleanup_closure mutationObserver_callback_def)
next
  case False
  assume "wired w"
  then show ?thesis
    by (simp add: static_view_invariants [OF static_view_step [OF False]])
qed

lemma keys_distinct_step_op: "keys_distinct w \<Longrightarrow> keys_distinct (step a w)"
proof (cases "structural a")
  case True
  assume "keys_distinct w"
  with True show ?thesis
    by (cases a)
       (simp_all add: keys_distinct_constructor keys_distinct_pinHoverEditorToNode
          keys_distinct_cleanup keys_distinct_cleanupAll keys_distinct_cleanup_closure
          mutationObserver_callback_def)
next
  case False
  assume "keys_distinct w"
  then show ?thesis
    by (simp add: static_view_invariants [OF static_view_step [OF False]])
qed

lemma no_local_timer_step_op: "no_local_timer w \<Longrightarrow> no_local_timer (step a w)"
proof (cases "structural a")
  case True
  assume "no_local_timer w"
  with True show ?thesis
    by (cases a)
       (simp_all add: no_local_timer_constructor no_local_timer_pinHoverEditorToNode
          no_local_timer_cleanup no_local_timer_cleanupAll no_local_timer_cleanup_closure
          mutationObserver_callback_def)
next
  case False
  assume "no_local_timer w"
  then show ?thesis
    by (simp add: static_view_invariants [OF static_view_step [OF False]])
qed

lemma sched_inv_step_op: "sched_inv w \<Longrightarrow> sched_inv (step a w)"
proof (cases a)
  case WindowResize
  assume "sched_inv w"
  then show ?thesis
    unfolding WindowResize step.simps
    by (rule fold_preserves [rotated]) (rule sched_inv_windowResizeHandler_call)
next
  case (ViewportEvent c)
  assume "sched_inv w"
  then show ?thesis
    unfolding ViewportEvent step.simps
    by (rule fold_preserves [rotated]) (rule sched_inv_scheduleSharedUpdate)
next
  case (PositionEvent n)
  assume "sched_inv w"
  then show ?thesis
    unfolding PositionEvent step.simps
    by (rule fold_preserves [rotated]) (rule sched_inv_scheduleSharedUpdate)
qed (simp_all add: sched_inv_constructor sched_inv_pinHoverEditorToNode sched_inv_cleanup
       sched_inv_cleanupAll sched_inv_animationFrame sched_inv_pollForDrag
       sched_inv_resizeObserver_callback sched_inv_cleanup_closure
       sched_inv_containerResizeObserver_callback mutationObserver_callback_def
       split: option.splits, simp_all add: sched_inv_def)

lemma initial_invariants:
  "sched_inv initial_world" "wired initial_world" "keys_distinct initial_world"
  "no_local_timer initial_world"
  by (simp_all add: initial_world_def sched_inv_def wired_def keys_distinct_def
        no_local_timer_def allEditors_def)

lemma reachable_invariants:
  assumes "reachable w"
  shows "sched_inv w" "wired w" "keys_distinct w" "no_local_timer w"
proof -
  have "sched_inv w \<and> wired w \<and> keys_distinct w \<and> no_local_timer w"
    using assms
    by (induction rule: reachable.induct)
       (simp_all add: initial_invariants sched_inv_step_op wired_step_op keys_distinct_step_op
          no_local_timer_step_op)
  then show "sched_inv w" "wired w" "keys_distinct w" "no_local_timer w"
    by simp_all
qed

lemma reachable_run: "reachable w \<Longrightarrow> reachable (run ops w)"
  unfolding run_def by (induction ops arbitrary: w) (simp_all add: reachable_step)

section \<open>The claims\<close>

lemma scheduleSharedUpdate_pending: "updatePending w \<Longrightarrow> scheduleSharedUpdate w = w"
  by (simp add: scheduleSharedUpdate_def)

lemma scheduleSharedUpdate_sets_pending: "updatePending (scheduleSharedUpdate w)"
  by (simp add: scheduleSharedUpdate_def)

lemma scheduleSharedUpdate_funpow:
  "(scheduleSharedUpdate ^^ Suc n) w = scheduleSharedUpdate w"
  by (induction n)
     (simp_all add: scheduleSharedUpdate_pending scheduleSharedUpdate_sets_pending)

lemma pass_reads_cong:
  "instances w' = instances w \<Longrightarrow> node_cy w' = node_cy w \<Longrightarrow> pass_reads w' = pass_reads w"
  by (simp add: pass_reads_def allEditors_def cong: list.case_cong)

lemma pass_writes_cong: "instances w' = instances w \<Longrightarrow> pass_writes w' = pass_writes w"
  by (simp add: pass_writes_def allEditors_def)

text \<open>
  C2. Scheduling coalesces. In every reachable world, N calls of \<open>scheduleSharedUpdate\<close>
  (N at least 1) made before a frame callback fires leave exactly one callback in the
  frame queue, and the next frame boundary runs \<open>sharedUpdate\<close> exactly once: its log is
  one read pass followed by one write pass.
\<close>

theorem schedule_coalesces:
  assumes "reachable w" and "0 < N"
  shows "length (raf_queue ((scheduleSharedUpdate ^^ N) w)) = 1
    \<and> updatePending ((scheduleSharedUpdate ^^ N) w)
    \<and> animationFrame ((scheduleSharedUpdate ^^ N) w)
        = sharedUpdate (((scheduleSharedUpdate ^^ N) w)\<lparr>raf_queue := []\<rparr>)
    \<and> new_events w (animationFrame ((scheduleSharedUpdate ^^ N) w))
        = pass_reads w @ pass_writes w"
proof -
  from assms(2) obtain n where N: "N = Suc n"
    by (cases N) simp_all
  define w' where "w' = scheduleSharedUpdate w"
  have eq: "(scheduleSharedUpdate ^^ N) w = w'"
    unfolding N w'_def by (rule scheduleSharedUpdate_funpow)
  have inv: "sched_inv w'"
    unfolding w'_def
    by (rule sched_inv_scheduleSharedUpdate) (rule reachable_invariants(1) [OF assms(1)])
  have pending: "updatePending w'"
    unfolding w'_def by (rule scheduleSharedUpdate_sets_pending)
  with inv obtain cb where q: "raf_queue w' = [cb]"
    by (auto simp: sched_inv_def length_Suc_conv)
  have frame: "animationFrame w' = sharedUpdate (w'\<lparr>raf_queue := []\<rparr>)"
    by (simp add: animationFrame_def q)
  have i: "instances (w'\<lparr>raf_queue := []\<rparr>) = instances w"
    and c: "node_cy (w'\<lparr>raf_queue := []\<rparr>) = node_cy w"
    and t: "trace (w'\<lparr>raf_queue := []\<rparr>) = trace w"
    by (simp_all add: w'_def scheduleSharedUpdate_eq)
  note same = pass_reads_cong [OF i c] pass_writes_cong [OF i] t
  have "new_events w (animationFrame w') = pass_reads w @ pass_writes w"
    by (simp add: frame new_events_def sharedUpdate_eq same)
  with q pending frame show ?thesis
    by (simp add: eq)
qed

text \<open>
  C9. Unpinning an identifier that the tracking map does not hold changes nothing: the
  world after \<open>cleanup\<close> is the world before it (no unsubscription, no DOM effect, the
  tracking map and every editor's state as they were). The model has no error value, so
  no error is raised.
\<close>

theorem cleanup_unknown_is_noop:
  "map_of (trackingMap w this) terminalId = None \<Longrightarrow> cleanup this terminalId w = w"
  by (simp add: cleanup_def)

lemma length_instances_step:
  "length (instances (step a w)) = length (instances w) + (if a = New then 1 else 0)"
proof (cases "structural a")
  case False
  then have "a \<noteq> New" by auto
  with static_viewD(1) [OF static_view_step [OF False], of w] show ?thesis
    by simp
next
  case True
  have c: "\<And>this k v. length (instances (cleanup this k v)) = length (instances v)"
    by (simp add: cleanup_eq split: option.splits)
  have "length (instances (cleanupAll this v)) = length (instances v)" for this v
    unfolding cleanupAll_def by (rule fold_keeps) (rule c)
  with True c show ?thesis
    by (cases a)
       (simp_all add: constructor_def pinHoverEditorToNode_def register_editor_eq
          mutationObserver_callback_def cleanup_closure_eq)
qed

lemma length_instances_run:
  "length (instances (run ops w)) = length (instances w) + count_list ops New"
  unfolding run_def
  by (induction ops arbitrary: w) (simp_all add: length_instances_step)

text \<open>
  C10. The static instance list only grows. The constructor appends an instance, every
  other operation keeps the length of the list (so a run of operations adds exactly as
  many instances as it has constructor calls), \<open>cleanupAll\<close> in particular leaves the
  instance in the list, and an instance that exists stays at its index, where every
  later pass collects its editors.
\<close>

theorem instances_append_only:
  "instances (constructor w) = instances w @ [[]]
   \<and> length (instances (step a w)) = length (instances w) + (if a = New then 1 else 0)
   \<and> length (instances (run ops w)) = length (instances w) + count_list ops New
   \<and> (this < length (instances w) \<longrightarrow>
        length (instances (cleanupAll this w)) = length (instances w)
        \<and> this < length (instances (run ops w))
        \<and> snd ` set (trackingMap (run ops w) this) \<subseteq> set (allEditors (run ops w)))"
proof -
  have "length (instances (cleanupAll this w)) = length (instances w)"
    if "this < length (instances w)"
    using length_instances_step [of "CleanupAll this" w] that by simp
  moreover have "snd ` set (trackingMap (run ops w) this) \<subseteq> set (allEditors (run ops w))"
    if "this < length (instances w)"
  proof -
    from that have "this < length (instances (run ops w))"
      by (simp add: length_instances_run)
    then show ?thesis
      unfolding trackingMap_def allEditors_def by (rule editors_nth)
  qed
  ultimately show ?thesis
    by (simp add: constructor_def length_instances_step length_instances_run)
qed

text \<open>
  C8. A detector tick never writes to the DOM: every inline style is as before, the tick
  logs reads only, and of the state of any editor it leaves \<open>width\<close> and \<open>height\<close>
  untouched (and the tracking maps), whether or not the threshold is exceeded.
\<close>

theorem pollForDrag_never_writes:
  "styles (pollForDrag r w) = styles w
   \<and> list_all is_read (new_events w (pollForDrag r w))
   \<and> width (l_state (scopes (pollForDrag r w) r')) = width (l_state (scopes w r'))
   \<and> height (l_state (scopes (pollForDrag r w) r')) = height (l_state (scopes w r'))
   \<and> instances (pollForDrag r w) = instances w"
  by (simp add: pollForDrag_eq new_events_def tick_events_def tick_scope_def detect_def
        applyDrag_def is_read_def)

lemma pass_updates_eq:
  "pass_updates w =
     map (compute_update (cy_zoom w (pass_cy w)) (cy_container_rect w (pass_cy w)) w)
       (allEditors w)"
  by (cases "allEditors w") (simp_all add: pass_updates_def pass_cy_def)

lemma fold_styles_other:
  "el \<notin> popoverEl ` set es \<Longrightarrow>
   fold (\<lambda>u s. s(u_popoverEl u := styled u)) (map (compute_update z cr w) es) s el = s el"
  by (induction es arbitrary: s) (auto simp: compute_update_def)

lemma fold_styles_unique:
  assumes "e \<in> set es" and "\<And>e'. e' \<in> set es \<Longrightarrow> popoverEl e' = popoverEl e \<Longrightarrow> e' = e"
  shows "fold (\<lambda>u s. s(u_popoverEl u := styled u)) (map (compute_update z cr w) es) s
           (popoverEl e) = styled (compute_update z cr w e)"
  using assms
proof (induction es arbitrary: s)
  case Nil
  then show ?case by simp
next
  case (Cons x xs)
  show ?case
  proof (cases "e \<in> set xs")
    case True
    then show ?thesis
      using Cons.IH [OF True] Cons.prems(2) by simp
  next
    case False
    with Cons.prems(1) have x: "x = e" by simp
    have "popoverEl e \<notin> popoverEl ` set xs"
    proof
      assume "popoverEl e \<in> popoverEl ` set xs"
      then obtain e' where e': "e' \<in> set xs" "popoverEl e' = popoverEl e"
        by auto
      then have "e' = e"
        using Cons.prems(2) [of e'] by simp
      with e'(1) False show False by simp
    qed
    then have "fold (\<lambda>u s. s(u_popoverEl u := styled u)) (map (compute_update z cr w) xs)
            (s(popoverEl e := styled (compute_update z cr w e))) (popoverEl e)
          = (s(popoverEl e := styled (compute_update z cr w e))) (popoverEl e)"
      by (rule fold_styles_other)
    moreover have "u_popoverEl (compute_update z cr w e) = popoverEl e"
      by (simp add: compute_update_def)
    ultimately show ?thesis
      unfolding x by (simp only: list.map fold_Cons comp_apply fun_upd_same)
  qed
qed

lemma sharedUpdate_other_style:
  "el \<notin> popoverEl ` set (allEditors w) \<Longrightarrow> styles (sharedUpdate w) el = styles w el"
  by (simp add: sharedUpdate_eq pass_updates_eq fold_styles_other)

lemma sharedUpdate_style:
  assumes "e \<in> set (allEditors w)"
    and "\<And>e'. e' \<in> set (allEditors w) \<Longrightarrow> popoverEl e' = popoverEl e \<Longrightarrow> e' = e"
  shows "styles (sharedUpdate w) (popoverEl e)
           = styled (compute_update (cy_zoom w (pass_cy w)) (cy_container_rect w (pass_cy w)) w e)"
  using fold_styles_unique [OF assms]
  by (simp add: sharedUpdate_eq pass_updates_eq)

text \<open>
  C7. The batched pass always ends with the pending flag cleared. With no tracked panel
  it does nothing else. An editor removed by \<open>cleanup\<close> before the pass runs is no
  longer in its tracking map, the pass collects only editors that were tracked before, it
  still clears the flag, and an element that belongs to no collected editor gets no write
  and keeps its style.
\<close>

theorem pass_clears_pending:
  "\<not> updatePending (sharedUpdate w)
   \<and> (allEditors w = [] \<longrightarrow> sharedUpdate w = w\<lparr>updatePending := False\<rparr>)
   \<and> (this < length (instances w) \<longrightarrow>
        map_of (trackingMap (cleanup this terminalId w) this) terminalId = None
        \<and> set (allEditors (cleanup this terminalId w)) \<subseteq> set (allEditors w)
        \<and> \<not> updatePending (sharedUpdate (cleanup this terminalId w))
        \<and> (el \<notin> popoverEl ` set (allEditors (cleanup this terminalId w)) \<longrightarrow>
             styles (sharedUpdate (cleanup this terminalId w)) el
               = styles (cleanup this terminalId w) el
             \<and> \<not> writes_to el (new_events (cleanup this terminalId w)
                                   (sharedUpdate (cleanup this terminalId w)))))"
proof -
  have pending: "\<not> updatePending (sharedUpdate v)" for v
    by (simp add: sharedUpdate_eq)
  have empty: "sharedUpdate w = w\<lparr>updatePending := False\<rparr>" if "allEditors w = []"
    using that by (simp add: sharedUpdate_def)
  have gone: "map_of (trackingMap (cleanup this terminalId w) this) terminalId = None"
    if "this < length (instances w)"
    using that
    by (cases "map_of (instances w ! this) terminalId")
       (simp_all add: cleanup_eq trackingMap_def delete_conv')
  have fewer: "set (allEditors (cleanup this terminalId w)) \<subseteq> set (allEditors w)"
    using editors_delete [of "instances w" this terminalId]
    by (cases "map_of (instances w ! this) terminalId")
       (simp_all add: cleanup_eq allEditors_def)
  have quiet: "\<not> writes_to el (new_events v (sharedUpdate v))"
    if "el \<notin> popoverEl ` set (allEditors v)" for v
    using that
    by (simp add: new_events_def sharedUpdate_eq writes_to_pass_writes
          writes_to_reads [OF pass_reads_are_reads])
  show ?thesis
    using pending empty gone fewer quiet sharedUpdate_other_style by blast
qed

lemma pinHoverEditorToNode_eq:
  "pinHoverEditorToNode this k nd el w = register_editor this k nd el (cleanup this k w)"
  by (simp add: pinHoverEditorToNode_def cleanup_def)

lemma cleanup_keeps:
  "next_scope (cleanup this k w) = next_scope w"
  "next_timer (cleanup this k w) = next_timer w"
  "scopes (cleanup this k w) = scopes w"
  "styles (cleanup this k w) = styles w"
  "node_cy (cleanup this k w) = node_cy w"
  "cy_zoom (cleanup this k w) = cy_zoom w"
  "cy_container_rect (cleanup this k w) = cy_container_rect w"
  "node_renderedBoundingBox (cleanup this k w) = node_renderedBoundingBox w"
  "el_boundingClientRect (cleanup this k w) = el_boundingClientRect w"
  "el_offsetWidth (cleanup this k w) = el_offsetWidth w"
  "el_offsetHeight (cleanup this k w) = el_offsetHeight w"
  "date_now (cleanup this k w) = date_now w"
  "length (instances (cleanup this k w)) = length (instances w)"
  by (simp_all add: cleanup_eq split: option.splits)

lemma new_after_cleanup:
  "new_editor (cleanup this k w) nd el = new_editor w nd el"
  "new_scope (cleanup this k w) this' k' nd el = new_scope w this' k' nd el"
  by (simp_all add: new_editor_def new_scope_def cleanup_keeps)

lemma pin_tracks_new_editor:
  assumes "this < length (instances w)"
  shows "map_of (trackingMap (pinHoverEditorToNode this k nd el w) this) k
           = Some (new_editor w nd el)"
  using assms
  by (simp add: pinHoverEditorToNode_eq register_editor_eq trackingMap_def cleanup_keeps
        new_after_cleanup update_conv')

lemma pin_scope_is_new:
  "scopes (pinHoverEditorToNode this k nd el w) (next_scope w) = new_scope w this k nd el"
  by (simp add: pinHoverEditorToNode_eq register_editor_eq cleanup_keeps new_after_cleanup)

lemma map_of_tracked:
  assumes "this < length (instances w)" and "map_of (trackingMap w this) k = Some e"
  shows "e \<in> set (allEditors w)"
proof -
  from assms(2) have "(k, e) \<in> set (instances w ! this)"
    by (auto simp: trackingMap_def dest: map_of_SomeD)
  then have "e \<in> snd ` set (instances w ! this)"
    by force
  with editors_nth [OF assms(1)] show ?thesis
    by (auto simp: allEditors_def)
qed

text \<open>
  C5. Pinning on an existing instance, at a zoom that is not zero, tracks the new editor
  under the identifier and seeds its state with offset = (panel origin - node viewport
  origin) / zoom, width = panel width / zoom and height = 1.5 * panel height / zoom.
  When the zoom at pin time is 1 and the panel sits at (10, 20) from the node's viewport
  origin, the stored offset is (10, 20); after the zoom of that graph view changes to 2,
  with the node's box and the container where they were, the pass writes left and top
  at (20, 40) from the node's viewport origin. The pass reads the zoom from the first
  collected editor's graph view, taken here to be the node's, and the panel's element is
  pinned once.
\<close>

theorem pin_seeds_state:
  assumes "this < length (instances w)" and "cy_zoom w (node_cy w nd) \<noteq> 0"
  shows "map_of (trackingMap (pinHoverEditorToNode this k nd el w) this) k
           = Some (new_editor w nd el)
    \<and> l_state (scopes (pinHoverEditorToNode this k nd el w) (state (new_editor w nd el)))
        = \<lparr>offsetX = (r_left (el_boundingClientRect w el) - nodeViewportX w nd)
                      / cy_zoom w (node_cy w nd),
           offsetY = (r_top (el_boundingClientRect w el) - nodeViewportY w nd)
                      / cy_zoom w (node_cy w nd),
           width = el_offsetWidth w el / cy_zoom w (node_cy w nd),
           height = (1.5 * el_offsetHeight w el) / cy_zoom w (node_cy w nd)\<rparr>
    \<and> (cy_zoom w (node_cy w nd) = 1
        \<and> r_left (el_boundingClientRect w el) = nodeViewportX w nd + 10
        \<and> r_top (el_boundingClientRect w el) = nodeViewportY w nd + 20
        \<and> pass_cy (pinHoverEditorToNode this k nd el w) = node_cy w nd
        \<and> (\<forall>e' \<in> set (allEditors (pinHoverEditorToNode this k nd el w)).
              popoverEl e' = el \<longrightarrow> e' = new_editor w nd el)
        \<longrightarrow> offsetX (l_state (scopes (pinHoverEditorToNode this k nd el w)
                                 (state (new_editor w nd el)))) = 10
          \<and> offsetY (l_state (scopes (pinHoverEditorToNode this k nd el w)
                                 (state (new_editor w nd el)))) = 20
          \<and> st_left (styles (sharedUpdate (step (SetZoom (node_cy w nd) 2)
                                (pinHoverEditorToNode this k nd el w))) el)
              = Some (nodeViewportX w nd + 20)
          \<and> st_top (styles (sharedUpdate (step (SetZoom (node_cy w nd) 2)
                                (pinHoverEditorToNode this k nd el w))) el)
              = Some (nodeViewportY w nd + 40))"
proof -
  define w1 where "w1 = pinHoverEditorToNode this k nd el w"
  define e where "e = new_editor w nd el"
  define w2 where "w2 = step (SetZoom (node_cy w nd) 2) w1"
  have tracked: "map_of (trackingMap w1 this) k = Some e"
    unfolding w1_def e_def by (rule pin_tracks_new_editor) (rule assms(1))
  have sc: "scopes w1 (state e) = new_scope w this k nd el"
    unfolding w1_def e_def using pin_scope_is_new [of this k nd el w]
    by (simp add: new_editor_def)
  have seeded: "l_state (scopes w1 (state e))
        = \<lparr>offsetX = (r_left (el_boundingClientRect w el) - nodeViewportX w nd)
                      / cy_zoom w (node_cy w nd),
           offsetY = (r_top (el_boundingClientRect w el) - nodeViewportY w nd)
                      / cy_zoom w (node_cy w nd),
           width = el_offsetWidth w el / cy_zoom w (node_cy w nd),
           height = (1.5 * el_offsetHeight w el) / cy_zoom w (node_cy w nd)\<rparr>"
    by (simp add: sc new_scope_def initialize_def nodeViewportX_def nodeViewportY_def)
  have len: "this < length (instances w1)"
    using assms(1)
    by (simp add: w1_def pinHoverEditorToNode_eq register_editor_eq cleanup_keeps)
  have env1: "cy_container_rect w1 = cy_container_rect w"
    "node_renderedBoundingBox w1 = node_renderedBoundingBox w" "node_cy w1 = node_cy w"
    by (simp_all add: w1_def pinHoverEditorToNode_eq register_editor_eq cleanup_keeps)
  have scenario: "st_left (styles (sharedUpdate w2) el) = Some (nodeViewportX w nd + 20)
      \<and> st_top (styles (sharedUpdate w2) el) = Some (nodeViewportY w nd + 40)"
    if z: "cy_zoom w (node_cy w nd) = 1"
      and l: "r_left (el_boundingClientRect w el) = nodeViewportX w nd + 10"
      and t: "r_top (el_boundingClientRect w el) = nodeViewportY w nd + 20"
      and shared: "pass_cy w1 = node_cy w nd"
      and unique: "\<forall>e' \<in> set (allEditors w1). popoverEl e' = el \<longrightarrow> e' = e"
  proof -
    have w2: "w2 = w1\<lparr>cy_zoom := (cy_zoom w1)(node_cy w nd := 2)\<rparr>"
      by (simp add: w2_def)
    have all2: "allEditors w2 = allEditors w1" and cy2: "pass_cy w2 = node_cy w nd"
      using shared by (simp_all add: w2 allEditors_def pass_cy_def)
    have el: "popoverEl e = el" and nd: "node e = nd"
      by (simp_all add: e_def new_editor_def)
    have "e \<in> set (allEditors w2)"
      unfolding all2 by (rule map_of_tracked [OF len tracked])
    moreover have "e' = e" if "e' \<in> set (allEditors w2)" "popoverEl e' = popoverEl e" for e'
      using that unique by (simp add: all2 el)
    ultimately have "styles (sharedUpdate w2) (popoverEl e)
        = styled (compute_update (cy_zoom w2 (pass_cy w2)) (cy_container_rect w2 (pass_cy w2)) w2 e)"
      by (rule sharedUpdate_style)
    moreover have "cy_zoom w2 (node_cy w nd) = 2" "cy_container_rect w2 = cy_container_rect w"
      "node_renderedBoundingBox w2 = node_renderedBoundingBox w" "scopes w2 = scopes w1"
      by (simp_all add: w2 env1)
    ultimately show ?thesis
      using seeded z l t
      by (simp add: el nd cy2 styled_def compute_update_def graphToScreen_def
            nodeViewportX_def nodeViewportY_def)
  qed
  from seeded have "offsetX (l_state (scopes w1 (state e))) = 10
      \<and> offsetY (l_state (scopes w1 (state e))) = 20"
    if "cy_zoom w (node_cy w nd) = 1"
      "r_left (el_boundingClientRect w el) = nodeViewportX w nd + 10"
      "r_top (el_boundingClientRect w el) = nodeViewportY w nd + 20"
    using that by simp
  with tracked seeded scenario show ?thesis
    unfolding w1_def e_def w2_def by blast
qed

lemma reachable_editor_wired:
  "reachable w \<Longrightarrow> e \<in> set (allEditors w) \<Longrightarrow> editor_wired w e"
  using reachable_invariants(2) [of w] by (simp add: wired_def list_all_iff)


lemma not_in_filtered_fst: "x \<notin> fst ` set (filter (\<lambda>p. fst p \<noteq> x) xs)"
  by auto

lemma cleanup_tears_down:
  assumes "map_of (trackingMap w this) k = Some old"
  shows "torn_down (cleanup this k w) old"
  using assms
  by (auto simp: cleanup_eq trackingMap_def torn_down_def)

lemma register_keeps_torn_down:
  assumes "torn_down w old" and "editor_wired w old"
  shows "torn_down (register_editor this k nd el w) old"
  using assms
  by (simp add: register_editor_eq torn_down_def editor_wired_def image_Un)

lemma register_subscribes:
  "subscribed (register_editor this k nd el w) (new_editor w nd el)"
  by (simp add: register_editor_eq subscribed_def new_editor_def)

lemma one_entry_for_key:
  "distinct (map fst m) \<Longrightarrow> map_of m k = Some v \<Longrightarrow> length (filter (\<lambda>p. fst p = k) m) = 1"
proof (induction m)
  case Nil
  then show ?case by simp
next
  case (Cons a m)
  show ?case
  proof (cases "fst a = k")
    case True
    with Cons.prems(1) have "k \<notin> fst ` set m" by auto
    then have "filter (\<lambda>p. fst p = k) m = []"
      by (auto simp: filter_empty_conv)
    with True show ?thesis by simp
  next
    case False
    with Cons show ?thesis by (cases a) auto
  qed
qed

lemma editor_wired_after_cleanup:
  "editor_wired w e \<Longrightarrow> editor_wired (cleanup this k w) e"
  by (simp add: editor_wired_def cleanup_keeps)

text \<open>
  C6. In every reachable world the tracking map of an instance holds each identifier at
  most once. Pinning an identifier that is tracked is the registration applied to the
  world after \<open>cleanup\<close> of that identifier: after the teardown the identifier is absent
  and none of the previous editor's handlers, observers and timer is left; in the final
  world they are still absent, the identifier maps to the new editor through exactly one
  entry, and the new editor's handlers, observers and timer are all registered.
\<close>

theorem one_registration_per_identifier:
  assumes "reachable w" and "this < length (instances w)"
  shows "distinct (map fst (trackingMap w this))
    \<and> (map_of (trackingMap w this) k = Some old \<longrightarrow>
         pinHoverEditorToNode this k nd el w
           = register_editor this k nd el (cleanup this k w)
         \<and> map_of (trackingMap (cleanup this k w) this) k = None
         \<and> torn_down (cleanup this k w) old
         \<and> torn_down (pinHoverEditorToNode this k nd el w) old
         \<and> map_of (trackingMap (pinHoverEditorToNode this k nd el w) this) k
             = Some (new_editor w nd el)
         \<and> length (filter (\<lambda>p. fst p = k)
                      (trackingMap (pinHoverEditorToNode this k nd el w) this)) = 1
         \<and> subscribed (pinHoverEditorToNode this k nd el w) (new_editor w nd el))"
proof -
  have d: "distinct (map fst (trackingMap w this))"
    unfolding trackingMap_def
    by (rule keys_distinct_nth [OF reachable_invariants(3) [OF assms(1)] assms(2)])
  have eq: "pinHoverEditorToNode this k nd el w
      = register_editor this k nd el (cleanup this k w)"
    by (rule pinHoverEditorToNode_eq)
  have tracked: "map_of (trackingMap (pinHoverEditorToNode this k nd el w) this) k
      = Some (new_editor w nd el)"
    by (rule pin_tracks_new_editor [OF assms(2)])
  have len: "this < length (instances (pinHoverEditorToNode this k nd el w))"
    using assms(2) by (simp add: eq register_editor_eq cleanup_keeps)
  have "keys_distinct (pinHoverEditorToNode this k nd el w)"
    by (rule keys_distinct_pinHoverEditorToNode) (rule reachable_invariants(3) [OF assms(1)])
  then have "distinct (map fst (trackingMap (pinHoverEditorToNode this k nd el w) this))"
    unfolding trackingMap_def using len by (rule keys_distinct_nth)
  then have one: "length (filter (\<lambda>p. fst p = k)
      (trackingMap (pinHoverEditorToNode this k nd el w) this)) = 1"
    using tracked by (rule one_entry_for_key)
  have sub: "subscribed (pinHoverEditorToNode this k nd el w) (new_editor w nd el)"
    using register_subscribes [of this k nd el "cleanup this k w"]
    by (simp add: eq new_after_cleanup)
  have gone: "map_of (trackingMap (cleanup this k w) this) k = None"
    using assms(2)
    by (cases "map_of (instances w ! this) k")
       (simp_all add: cleanup_eq trackingMap_def delete_conv')
  have old: "torn_down (cleanup this k w) old \<and> torn_down (pinHoverEditorToNode this k nd el w) old"
    if "map_of (trackingMap w this) k = Some old"
  proof -
    have t: "torn_down (cleanup this k w) old"
      by (rule cleanup_tears_down [OF that])
    have "editor_wired w old"
      by (rule reachable_editor_wired [OF assms(1) map_of_tracked [OF assms(2) that]])
    then have "editor_wired (cleanup this k w) old"
      by (rule editor_wired_after_cleanup)
    with t have "torn_down (register_editor this k nd el (cleanup this k w)) old"
      by (rule register_keeps_torn_down)
    with t show ?thesis by (simp add: eq)
  qed
  from d eq tracked one sub gone old show ?thesis
    by blast
qed

lemma closure_cleanup_leaves_timers:
  "reachable w \<Longrightarrow> intervals (cleanup_closure r w) = intervals w"
  using reachable_invariants(4) [of w] by (simp add: cleanup_closure_eq no_local_timer_def)

lemmas eval_defs =
  run_def pinHoverEditorToNode_eq register_editor_eq cleanup_eq constructor_def
  initial_world_def new_scope_def new_editor_def initialize_def zero_rect_def trackingMap_def
  animationFrame_def sharedUpdate_eq pass_updates_def pass_reads_def pass_writes_def
  allEditors_def compute_update_def styled_def write_events_def graphToScreen_def

lemma example_reachable: "reachable example_world"
  unfolding example_world_def by (rule reachable_run) (rule reachable_init)

lemma example_world_eval:
  "instances example_world = [[(''term-1'', term_1), (''term-2'', term_2)]]"
  "allEditors example_world = [term_1, term_2]"
  "l_state (scopes example_world 0) = \<lparr>offsetX = 10, offsetY = 10, width = 100, height = 75\<rparr>"
  "styles example_world 10 =
     \<lparr>st_position = Some ''fixed'', st_left = Some 300, st_top = Some 200,
      st_width = Some 200, st_height = Some 150, st_zIndex = Some ''1000''\<rparr>"
  "cy_zoom example_world = (\<lambda>c. 1)(0 := 2)"
  "node_cy example_world = (\<lambda>n. 0)"
  "cy_container_rect example_world 0 = \<lparr>r_left = 50, r_top = 40, r_width = 800, r_height = 600\<rparr>"
  "node_renderedBoundingBox example_world 5 = \<lparr>x1 = 100, y1 = 100\<rparr>"
  "l_cachedContainerRect (scopes example_world 0)
     = \<lparr>r_left = 50, r_top = 40, r_width = 800, r_height = 600\<rparr>"
  "l_lastRectUpdate (scopes example_world 0) = 0"
  "date_now example_world = 0"
  by (simp_all add: example_world_def eval_defs term_1_def term_2_def)



text \<open>Three requests in the example world, where two panels are pinned.\<close>

theorem schedule_coalesces_witness:
  "reachable example_world \<and> (0::nat) < 3
   \<and> length (raf_queue ((scheduleSharedUpdate ^^ 3) example_world)) = 1
   \<and> animationFrame ((scheduleSharedUpdate ^^ 3) example_world)
       = sharedUpdate (((scheduleSharedUpdate ^^ 3) example_world)\<lparr>raf_queue := []\<rparr>)"
proof -
  have h: "(0::nat) < 3" by simp
  from schedule_coalesces [OF example_reachable h] show ?thesis
    by (simp add: example_reachable)
qed

text \<open>The identifier \<open>term-9\<close> was never pinned in the example world.\<close>

theorem cleanup_unknown_is_noop_witness:
  "map_of (trackingMap example_world 0) ''term-9'' = None
   \<and> cleanup 0 ''term-9'' example_world = example_world"
proof -
  have h: "map_of (trackingMap example_world 0) ''term-9'' = None"
    by (simp add: trackingMap_def example_world_eval)
  from cleanup_unknown_is_noop [OF h] h show ?thesis
    by simp
qed

text \<open>Unpinning everything in the example world, then constructing a second engine.\<close>

theorem instances_append_only_witness:
  "0 < length (instances example_world)
   \<and> length (instances (cleanupAll 0 example_world)) = 1
   \<and> length (instances (run [CleanupAll 0, New] example_world)) = 2
   \<and> snd ` set (trackingMap (run [CleanupAll 0, New] example_world) 0)
       \<subseteq> set (allEditors (run [CleanupAll 0, New] example_world))"
  using instances_append_only [of example_world "CleanupAll 0" "[CleanupAll 0, New]" 0]
  by (simp add: example_world_eval)

text \<open>
  The example world with \<open>term-1\<close> removed before the pass, and a world with one engine
  and no panel.
\<close>

theorem pass_clears_pending_witness:
  "0 < length (instances example_world)
   \<and> \<not> updatePending (sharedUpdate example_world)
   \<and> sharedUpdate (constructor initial_world) = (constructor initial_world)\<lparr>updatePending := False\<rparr>
   \<and> map_of (trackingMap (cleanup 0 ''term-1'' example_world) 0) ''term-1'' = None
   \<and> allEditors (cleanup 0 ''term-1'' example_world) = [term_2]
   \<and> styles (sharedUpdate (cleanup 0 ''term-1'' example_world)) 10
       = styles (cleanup 0 ''term-1'' example_world) 10
   \<and> \<not> writes_to 10 (new_events (cleanup 0 ''term-1'' example_world)
                        (sharedUpdate (cleanup 0 ''term-1'' example_world)))"
proof -
  have h1: "0 < length (instances example_world)"
    by (simp add: example_world_eval)
  have h2: "allEditors (cleanup 0 ''term-1'' example_world) = [term_2]"
    by (simp add: allEditors_def cleanup_eq example_world_eval)
  have h3: "10 \<notin> popoverEl ` set (allEditors (cleanup 0 ''term-1'' example_world))"
    by (simp add: h2 term_2_def)
  have h4: "allEditors (constructor initial_world) = []"
    by (simp add: allEditors_def constructor_def initial_world_def)
  from pass_clears_pending [of example_world 0 "''term-1''" 10]
    pass_clears_pending [of "constructor initial_world" 0 "''term-1''" 10] h1 h2 h3 h4
  show ?thesis
    by simp
qed

text \<open>
  The specification's scenario: node at (50, 50), panel at (60, 70) with size 200 x 100,
  zoom 1, then zoom 2.
\<close>

theorem pin_seeds_state_witness:
  "0 < length (instances pin_ready_world)
   \<and> cy_zoom pin_ready_world (node_cy pin_ready_world 5) = 1
   \<and> l_state (scopes (pinHoverEditorToNode 0 ''term-1'' 5 10 pin_ready_world) 0)
       = \<lparr>offsetX = 10, offsetY = 20, width = 200, height = 150\<rparr>
   \<and> st_left (styles (sharedUpdate (step (SetZoom 0 2)
         (pinHoverEditorToNode 0 ''term-1'' 5 10 pin_ready_world))) 10) = Some 70
   \<and> st_top (styles (sharedUpdate (step (SetZoom 0 2)
         (pinHoverEditorToNode 0 ''term-1'' 5 10 pin_ready_world))) 10) = Some 90"
proof -
  have ev: "instances pin_ready_world = [[]]" "cy_zoom pin_ready_world = (\<lambda>c. 1)"
    "node_cy pin_ready_world = (\<lambda>n. 0)" "next_scope pin_ready_world = 0"
    "next_timer pin_ready_world = 1"
    "node_renderedBoundingBox pin_ready_world 5 = \<lparr>x1 = 50, y1 = 50\<rparr>"
    "cy_container_rect pin_ready_world 0 = zero_rect"
    "el_boundingClientRect pin_ready_world 10
       = \<lparr>r_left = 60, r_top = 70, r_width = 200, r_height = 100\<rparr>"
    "el_offsetWidth pin_ready_world 10 = 200" "el_offsetHeight pin_ready_world 10 = 100"
    by (simp_all add: pin_ready_world_def run_def constructor_def initial_world_def)
  have h1: "0 < length (instances pin_ready_world)"
    and h2: "cy_zoom pin_ready_world (node_cy pin_ready_world 5) \<noteq> 0"
    by (simp_all add: ev)
  have all: "allEditors (pinHoverEditorToNode 0 ''term-1'' 5 10 pin_ready_world)
      = [new_editor pin_ready_world 5 10]"
    by (simp add: allEditors_def pinHoverEditorToNode_eq register_editor_eq cleanup_eq ev)
  have cy: "pass_cy (pinHoverEditorToNode 0 ''term-1'' 5 10 pin_ready_world) = 0"
    by (simp add: pass_cy_def all)
       (simp add: pinHoverEditorToNode_eq register_editor_eq cleanup_eq ev)
  from pin_seeds_state [OF h1 h2, of "''term-1''" 10] show ?thesis
    by (simp add: all cy ev new_editor_def nodeViewportX_def nodeViewportY_def zero_rect_def)
qed

text \<open>Pinning \<open>term-1\<close> again in the example world, to another node and element.\<close>

theorem one_registration_per_identifier_witness:
  "reachable example_world \<and> 0 < length (instances example_world)
   \<and> map_of (trackingMap example_world 0) ''term-1'' = Some term_1
   \<and> distinct (map fst (trackingMap example_world 0))
   \<and> torn_down (pinHoverEditorToNode 0 ''term-1'' 3 30 example_world) term_1
   \<and> subscribed (pinHoverEditorToNode 0 ''term-1'' 3 30 example_world)
       (new_editor example_world 3 30)
   \<and> length (filter (\<lambda>p. fst p = ''term-1'')
                (trackingMap (pinHoverEditorToNode 0 ''term-1'' 3 30 example_world) 0)) = 1"
proof -
  have h1: "0 < length (instances example_world)"
    by (simp add: example_world_eval)
  have h2: "map_of (trackingMap example_world 0) ''term-1'' = Some term_1"
    by (simp add: trackingMap_def example_world_eval)
  from one_registration_per_identifier [OF example_reachable h1, of "''term-1''" term_1 3 30]
    h1 h2 example_reachable
  show ?thesis
    by blast
qed

text \<open>
  C4 fails on the code. A panel is pinned and its element then leaves the document; the
  removal observer fires and runs the closure \<open>cleanup\<close>. The identifier, both graph
  handlers, the three observers and the window listener are gone, but the interval timer
  still runs and its next tick still executes \<open>pollForDrag\<close>: the closure clears the
  local variable \<open>dragPollInterval\<close>, which was never assigned, while the timer's
  identifier was stored in the tracked editor only. The method \<open>cleanup\<close> on the same
  pinned world does clear the timer.
\<close>

theorem liveness_teardown_leaves_timer:
  "intervals pinned_world = [(1, 0)]
   \<and> intervals (cleanup 0 ''term'' pinned_world) = []
   \<and> trackingMap detached_world 0 = []
   \<and> viewport_handlers detached_world = [] \<and> position_handlers detached_world = []
   \<and> resize_observing detached_world = [] \<and> mutation_observing detached_world = []
   \<and> container_observing detached_world = [] \<and> window_resize_listeners detached_world = []
   \<and> intervals detached_world = [(1, 0)]
   \<and> new_events detached_world (step (Tick 1) detached_world)
       = [ReadZoom 0, ReadNodeBox 0, ReadStyle 0 Left, ReadStyle 0 Top]"
  by (simp add: detached_world_def pinned_world_def eval_defs mutationObserver_callback_def
        cleanup_closure_eq pollForDrag_eq tick_events_def cache_stale_def new_events_def)

end
